theory Spec2Isabelle
  imports Complex_Main "HOL-Library.Multiset" "HOL-Library.Char_ord" "HOL-Library.List_Lexorder"
    "HOL-Library.Log_Nat"
begin

section \<open>Conventions of the embedding\<close>

text \<open>
  The development embeds the domain and data layer of \<^verbatim>\<open>lab.py\<close>: the class
  \<^verbatim>\<open>GlucoseAnalyzer\<close>, the class \<^verbatim>\<open>DatabaseManager\<close> and the class
  \<^verbatim>\<open>StatisticsCalculator\<close>.

  \<^item> A glucose value is a Python float. It is modelled as the \<^typ>\<open>real\<close> number it
    stands for: the order of the finite floats is the order of the reals, so every
    comparison of the source is exact in the model. Every arithmetic operation of the
    source on floats is the exact operation followed by the rounding to the nearest
    double. The infinities and NaN are not values of the model, and a result beyond the
    largest double is outside it.
  \<^item> A Python string is a \<^typ>\<open>string\<close>; strings are compared byte by byte, a proper
    prefix being smaller, which is the order of SQLite's default collation.
  \<^item> An exception is a value \<open>Inl e\<close> of a sum type.
  \<^item> The clock \<^verbatim>\<open>datetime.now()\<close> is an argument \<open>now\<close> of every function
    that reads it.
\<close>

datatype py_error = IntegrityError | OverflowError | StatisticsError | ValueError

section \<open>Dates and times\<close>

text \<open>
  What the source uses of Python's \<^verbatim>\<open>datetime\<close>: a naive date and time of the proleptic
  Gregorian calendar, the subtraction of a \<^verbatim>\<open>timedelta\<close> of whole days, and
  \<^verbatim>\<open>strftime\<close>. Microseconds never reach a formatted string and are left out.
\<close>

record datetime =
  dt_year :: int
  dt_month :: int
  dt_day :: int
  dt_hour :: int
  dt_minute :: int
  dt_second :: int

definition MAXORDINAL :: int where
  "MAXORDINAL = 3652059"

definition is_leap :: "int \<Rightarrow> bool" where
  "is_leap year = (year mod 4 = 0 \<and> (year mod 100 \<noteq> 0 \<or> year mod 400 = 0))"

definition days_before_year :: "int \<Rightarrow> int" where
  "days_before_year year =
     (let y = year - 1 in y * 365 + y div 4 - y div 100 + y div 400)"

definition DAYS_IN_MONTH :: "int list" where
  "DAYS_IN_MONTH = [-1, 31, 28, 31, 30, 31, 30, 31, 31, 30, 31, 30, 31]"

definition DAYS_BEFORE_MONTH :: "int list" where
  "DAYS_BEFORE_MONTH = [-1, 0, 31, 59, 90, 120, 151, 181, 212, 243, 273, 304, 334]"

definition days_before_month :: "int \<Rightarrow> int \<Rightarrow> int" where
  "days_before_month year month =
     DAYS_BEFORE_MONTH ! nat month + (if month > 2 \<and> is_leap year then 1 else 0)"

definition ymd2ord :: "int \<Rightarrow> int \<Rightarrow> int \<Rightarrow> int" where
  "ymd2ord year month day = days_before_year year + days_before_month year month + day"

text \<open>The inverse, by the cycles of 400, 100, 4 and 1 years, as the library computes it.\<close>

definition ord2ymd :: "int \<Rightarrow> int \<times> int \<times> int" where
  "ord2ymd n0 =
     (let n = n0 - 1;
          n400 = n div 146097; n = n mod 146097;
          year = n400 * 400 + 1;
          n100 = n div 36524; n = n mod 36524;
          n4 = n div 1461; n = n mod 1461;
          n1 = n div 365; n = n mod 365;
          year = year + n100 * 100 + n4 * 4 + n1
      in if n1 = 4 \<or> n100 = 4 then (year - 1, 12, 31)
         else
           let leapyear = (n1 = 3 \<and> (n4 \<noteq> 24 \<or> n100 = 3));
               month = (n + 50) div 32;
               preceding = DAYS_BEFORE_MONTH ! nat month
                             + (if month > 2 \<and> leapyear then 1 else 0)
           in if preceding > n
              then
                let month = month - 1;
                    preceding = preceding
                      - (DAYS_IN_MONTH ! nat month
                           + (if month = 2 \<and> leapyear then 1 else 0))
                in (year, month, n - preceding + 1)
              else (year, month, n - preceding + 1))"

definition toordinal :: "datetime \<Rightarrow> int" where
  "toordinal d = ymd2ord (dt_year d) (dt_month d) (dt_day d)"

text \<open>
  \<^verbatim>\<open>now - timedelta(days=days)\<close>. The constructor of \<^verbatim>\<open>timedelta\<close> refuses more
  than 999999999 days in either direction, and the difference must be a date of the
  years 1 to 9999; both failures are an \<^verbatim>\<open>OverflowError\<close>. The time of day is kept.
\<close>

definition minus_days :: "datetime \<Rightarrow> int \<Rightarrow> py_error + datetime" where
  "minus_days now days =
     (if \<bar>days\<bar> > 999999999 then Inl OverflowError
      else
        let ord = toordinal now - days
        in if 0 < ord \<and> ord \<le> MAXORDINAL
           then (case ord2ymd ord of
                   (y, m, d) \<Rightarrow> Inr (now\<lparr>dt_year := y, dt_month := m, dt_day := d\<rparr>))
           else Inl OverflowError)"

text \<open>Decimal digits of a natural number, padded with zeros to a width.\<close>

definition digit_char :: "nat \<Rightarrow> char" where
  "digit_char d = char_of (of_char (CHR ''0'') + d)"

fun digits :: "nat \<Rightarrow> nat \<Rightarrow> string" where
  "digits 0 n = []"
| "digits (Suc w) n = digits w (n div 10) @ [digit_char (n mod 10)]"

definition zero_pad :: "nat \<Rightarrow> int \<Rightarrow> string" where
  "zero_pad w n = digits w (nat n)"

text \<open>
  \<^verbatim>\<open>strftime("%Y-%m-%d")\<close> and \<^verbatim>\<open>strftime("%Y-%m-%d %H:%M:%S")\<close>. The year is written
  with four digits (every platform does so from the year 1000 on), the other fields
  with two.
\<close>

definition strftime_ymd :: "datetime \<Rightarrow> string" where
  "strftime_ymd d =
     zero_pad 4 (dt_year d) @ ''-'' @ zero_pad 2 (dt_month d) @ ''-'' @ zero_pad 2 (dt_day d)"

definition strftime_ymd_hms :: "datetime \<Rightarrow> string" where
  "strftime_ymd_hms d =
     strftime_ymd d @ '' '' @ zero_pad 2 (dt_hour d) @ '':'' @ zero_pad 2 (dt_minute d)
       @ '':'' @ zero_pad 2 (dt_second d)"

section \<open>GlucoseAnalyzer\<close>

definition CRITICAL_LOW :: real where "CRITICAL_LOW = 54"
definition WARNING_LOW :: real where "WARNING_LOW = 70"
definition NORMAL_LOW :: real where "NORMAL_LOW = 70"
definition NORMAL_HIGH :: real where "NORMAL_HIGH = 140"
definition WARNING_HIGH :: real where "WARNING_HIGH = 180"

text \<open>The dictionary that \<^verbatim>\<open>analyze\<close> returns, one field for each key.\<close>

record analysis =
  a_value :: real
  a_timestamp :: string
  a_status :: string
  a_color :: string
  a_severity :: string
  a_message :: string
  a_alarm :: bool

text \<open>
  The two symbols that open the messages, in UTF-8: the warning sign U+26A0 followed by
  the variation selector U+FE0F, and the check mark U+2713.
\<close>

definition warning_sign :: string where
  "warning_sign = [CHR 0xE2, CHR 0x9A, CHR 0xA0, CHR 0xEF, CHR 0xB8, CHR 0x8F]"

definition check_mark :: string where
  "check_mark = [CHR 0xE2, CHR 0x9C, CHR 0x93]"

definition analyze :: "datetime \<Rightarrow> real \<Rightarrow> analysis" where
  "analyze now glucose_value =
     (let ts = strftime_ymd_hms now in
      if glucose_value < CRITICAL_LOW then
        \<lparr>a_value = glucose_value, a_timestamp = ts, a_status = ''CRITICAL LOW'',
         a_color = ''#FF4444'', a_severity = ''critical'',
         a_message = warning_sign
           @ '' CRITICAL: Severe Hypoglycemia! Immediate action required!'',
         a_alarm = True\<rparr>
      else if glucose_value < WARNING_LOW then
        \<lparr>a_value = glucose_value, a_timestamp = ts, a_status = ''WARNING LOW'',
         a_color = ''#FFA500'', a_severity = ''warning'',
         a_message = warning_sign @ '' WARNING: Low glucose level detected.'',
         a_alarm = True\<rparr>
      else if glucose_value \<le> NORMAL_HIGH then
        \<lparr>a_value = glucose_value, a_timestamp = ts, a_status = ''NORMAL'',
         a_color = ''#4CAF50'', a_severity = ''normal'',
         a_message = check_mark @ '' Glucose level is within normal range.'',
         a_alarm = False\<rparr>
      else if glucose_value \<le> WARNING_HIGH then
        \<lparr>a_value = glucose_value, a_timestamp = ts, a_status = ''WARNING HIGH'',
         a_color = ''#FFA500'', a_severity = ''warning'',
         a_message = warning_sign @ '' WARNING: Elevated glucose level detected.'',
         a_alarm = True\<rparr>
      else
        \<lparr>a_value = glucose_value, a_timestamp = ts, a_status = ''CRITICAL HIGH'',
         a_color = ''#FF4444'', a_severity = ''critical'',
         a_message = warning_sign
           @ '' CRITICAL: Severe Hyperglycemia! Immediate action required!'',
         a_alarm = True\<rparr>)"

section \<open>DatabaseManager\<close>

text \<open>
  The SQLite file is a record of its three tables, each the list of its rows in the order
  of insertion, and of the three counters that \<^verbatim>\<open>AUTOINCREMENT\<close> keeps in
  \<^verbatim>\<open>sqlite_sequence\<close>. A row is a record with the columns of the table in the order
  of \<^verbatim>\<open>SELECT *\<close>. Every method opens its own connection, runs one statement and
  commits, so a method is a function from the file to the file. That the store can be
  read and written at all is assumed; the exhaustion of the 63-bit row identifiers is
  not modelled.
\<close>

record patient_row =
  p_id :: int
  p_name :: string
  p_age :: int
  p_diabetes_type :: string
  p_target_min :: real
  p_target_max :: real
  p_created_date :: string

record reading_row =
  r_id :: int
  r_patient_id :: int
  r_glucose_value :: real
  r_status :: string
  r_condition :: string
  r_timestamp :: string

record goal_row =
  g_id :: int
  g_patient_id :: int
  g_goal_type :: string
  g_target_value :: real
  g_current_value :: real
  g_start_date :: string
  g_end_date :: string
  g_achieved :: int

record database =
  t_patients :: "patient_row list"
  t_readings :: "reading_row list"
  t_goals :: "goal_row list"
  seq_patients :: int
  seq_readings :: int
  seq_goals :: int

text \<open>
  \<^verbatim>\<open>init_database\<close> creates each table only if it does not exist: a file that is
  not there yet becomes the three empty tables, an existing one is left as it is.
\<close>

definition init_database :: "database option \<Rightarrow> database" where
  "init_database file =
     (case file of
        None \<Rightarrow> \<lparr>t_patients = [], t_readings = [], t_goals = [],
                 seq_patients = 0, seq_readings = 0, seq_goals = 0\<rparr>
      | Some db \<Rightarrow> db)"

text \<open>
  The tables \<^verbatim>\<open>readings\<close> and \<^verbatim>\<open>goals\<close> declare
  \<^verbatim>\<open>FOREIGN KEY (patient_id) REFERENCES patients(id)\<close>. SQLite checks a foreign key
  only on a connection on which \<^verbatim>\<open>PRAGMA foreign_keys = ON\<close> has been run; a new
  connection has it off, and no method of the source runs the pragma.
\<close>

definition foreign_keys :: bool where
  "foreign_keys = False"

text \<open>
  \<^verbatim>\<open>name TEXT UNIQUE\<close> is checked on every insert. The violation is the
  \<^verbatim>\<open>sqlite3.IntegrityError\<close> that the method catches: it returns \<^verbatim>\<open>None\<close> and
  nothing has been written.
\<close>

definition add_patient ::
  "database \<Rightarrow> datetime \<Rightarrow> string \<Rightarrow> int \<Rightarrow> string \<Rightarrow> int option \<times> database" where
  "add_patient db now name age diabetes_type =
     (if name \<in> set (map p_name (t_patients db)) then (None, db)
      else
        let patient_id = seq_patients db + 1
        in (Some patient_id,
            db\<lparr>t_patients := t_patients db @
                  [\<lparr>p_id = patient_id, p_name = name, p_age = age,
                    p_diabetes_type = diabetes_type, p_target_min = 70, p_target_max = 140,
                    p_created_date = strftime_ymd_hms now\<rparr>],
               seq_patients := patient_id\<rparr>))"

definition get_patients :: "database \<Rightarrow> patient_row list" where
  "get_patients db = t_patients db"

definition get_patient_by_name :: "database \<Rightarrow> string \<Rightarrow> patient_row option" where
  "get_patient_by_name db name = find (\<lambda>p. p_name p = name) (t_patients db)"

definition update_patient_targets :: "database \<Rightarrow> int \<Rightarrow> real \<Rightarrow> real \<Rightarrow> database" where
  "update_patient_targets db patient_id target_min target_max =
     db\<lparr>t_patients :=
          map (\<lambda>p. if p_id p = patient_id
                    then p\<lparr>p_target_min := target_min, p_target_max := target_max\<rparr>
                    else p)
              (t_patients db)\<rparr>"

text \<open>
  \<^verbatim>\<open>add_reading\<close> catches nothing: an \<^verbatim>\<open>IntegrityError\<close> of the insert would
  leave the method as it is raised.
\<close>

definition add_reading ::
  "database \<Rightarrow> int \<Rightarrow> real \<Rightarrow> string \<Rightarrow> string \<Rightarrow> string \<Rightarrow> py_error + database" where
  "add_reading db patient_id glucose_value status condition timestamp =
     (if foreign_keys \<and> patient_id \<notin> set (map p_id (t_patients db)) then Inl IntegrityError
      else
        let reading_id = seq_readings db + 1
        in Inr (db\<lparr>t_readings := t_readings db @
                      [\<lparr>r_id = reading_id, r_patient_id = patient_id,
                        r_glucose_value = glucose_value, r_status = status,
                        r_condition = condition, r_timestamp = timestamp\<rparr>],
                   seq_readings := reading_id\<rparr>))"

text \<open>
  \<^verbatim>\<open>ORDER BY timestamp DESC\<close>: the rows by descending timestamp. SQL leaves the
  order of rows with equal timestamps open; SQLite's sorter keeps them in the order of
  the table, and so does the model. No theorem below depends on that choice.
\<close>

definition order_by_timestamp_desc :: "reading_row list \<Rightarrow> reading_row list" where
  "order_by_timestamp_desc rows = rev (sort_key r_timestamp (rev rows))"

text \<open>
  \<^verbatim>\<open>days=None\<close> is the argument left out. \<^verbatim>\<open>if days:\<close> takes the first branch
  for every integer but 0.
\<close>

definition get_readings ::
  "database \<Rightarrow> datetime \<Rightarrow> int \<Rightarrow> int option \<Rightarrow> py_error + reading_row list" where
  "get_readings db now patient_id days =
     (case days of
        Some d \<Rightarrow>
          if d \<noteq> 0 then
            (case minus_days now d of
               Inl e \<Rightarrow> Inl e
             | Inr t \<Rightarrow>
                 let cutoff_date = strftime_ymd t
                 in Inr (order_by_timestamp_desc
                          (filter (\<lambda>r. r_patient_id r = patient_id
                                        \<and> r_timestamp r \<ge> cutoff_date)
                                  (t_readings db))))
          else Inr (order_by_timestamp_desc
                     (filter (\<lambda>r. r_patient_id r = patient_id) (t_readings db)))
      | None \<Rightarrow>
          Inr (order_by_timestamp_desc
                (filter (\<lambda>r. r_patient_id r = patient_id) (t_readings db))))"

definition add_goal ::
  "database \<Rightarrow> int \<Rightarrow> string \<Rightarrow> real \<Rightarrow> string \<Rightarrow> string \<Rightarrow> py_error + database" where
  "add_goal db patient_id goal_type target_value start_date end_date =
     (if foreign_keys \<and> patient_id \<notin> set (map p_id (t_patients db)) then Inl IntegrityError
      else
        let goal_id = seq_goals db + 1
        in Inr (db\<lparr>t_goals := t_goals db @
                      [\<lparr>g_id = goal_id, g_patient_id = patient_id, g_goal_type = goal_type,
                        g_target_value = target_value, g_current_value = 0,
                        g_start_date = start_date, g_end_date = end_date,
                        g_achieved = 0\<rparr>],
                   seq_goals := goal_id\<rparr>))"

definition get_goals :: "database \<Rightarrow> int \<Rightarrow> goal_row list" where
  "get_goals db patient_id = filter (\<lambda>g. g_patient_id g = patient_id) (t_goals db)"

text \<open>
  The flag \<^verbatim>\<open>achieved\<close> is an \<^verbatim>\<open>INTEGER\<close> column; Python's \<^verbatim>\<open>True\<close> and
  \<^verbatim>\<open>False\<close> are stored as 1 and 0. The default \<^verbatim>\<open>achieved=0\<close> of the method is
  the caller passing 0.
\<close>

definition update_goal_progress :: "database \<Rightarrow> int \<Rightarrow> real \<Rightarrow> int \<Rightarrow> database" where
  "update_goal_progress db goal_id current_value achieved =
     db\<lparr>t_goals :=
          map (\<lambda>g. if g_id g = goal_id
                    then g\<lparr>g_current_value := current_value, g_achieved := achieved\<rparr>
                    else g)
              (t_goals db)\<rparr>"

section \<open>Binary floating point\<close>

text \<open>
  A Python float is an IEEE 754 double: zero, or a multiple of a power of two by an integer
  of at most 53 bits, the power being at least 2 to the \<open>-1074\<close>. Every
  arithmetic operation on floats returns the double nearest to the exact result, and a
  result halfway between two doubles goes to the one with the even integer.
\<close>

text \<open>The integer nearest to a real number, a half going to the even integer.\<close>

definition round_half_even :: "real \<Rightarrow> int" where
  "round_half_even y =
     (let f = \<lfloor>y\<rfloor>; d = y - of_int f
      in if d < 1 / 2 then f
         else if d > 1 / 2 then f + 1
         else if even f then f
         else f + 1)"

definition pow2 :: "int \<Rightarrow> real" where
  "pow2 q = (if 0 \<le> q then 2 ^ nat q else 1 / 2 ^ nat (- q))"

text \<open>
  The binary exponent of a positive number \<open>x\<close>: the integer \<open>e\<close> for which
  \<open>x\<close> is at least 2 to the \<open>e\<close> and less than 2 to the \<open>e + 1\<close>, from the
  number of bits of the integer part of \<open>x\<close>, or of \<open>1 / x\<close> when \<open>x\<close> is
  below 1.
\<close>

definition exponent :: "real \<Rightarrow> int" where
  "exponent x = (if 1 \<le> x then bitlen \<lfloor>x\<rfloor> - 1 else - bitlen (\<lceil>1 / x\<rceil> - 1))"

text \<open>
  The double nearest to a real number: the number is rounded to a multiple of the power
  of two that leaves 53 bits, or of 2 to the \<open>-1074\<close> for a number so small that it
  is denormal.
\<close>

definition to_double :: "real \<Rightarrow> real" where
  "to_double x =
     (if x = 0 then 0
      else
        let q = max (exponent \<bar>x\<bar> - 52) (- 1074)
        in of_int (round_half_even (x / pow2 q)) * pow2 q)"

section \<open>StatisticsCalculator\<close>

subsection \<open>What it uses of Python's library\<close>

text \<open>
  \<^verbatim>\<open>statistics.mean\<close>, \<^verbatim>\<open>statistics.median\<close> and \<^verbatim>\<open>statistics.stdev\<close>, which
  raise \<^verbatim>\<open>StatisticsError\<close> on too little data. The library adds and divides exact
  fractions and rounds once, at the end: \<^verbatim>\<open>mean\<close> returns the double nearest to the
  exact mean, and \<^verbatim>\<open>stdev\<close> (as of Python 3.11) the double nearest to the square root
  of the exact variance, which it takes from the sum and the sum of squares of the data.
  \<^verbatim>\<open>median\<close> adds the two middle values and halves the sum as floats.
\<close>

definition mean :: "real list \<Rightarrow> py_error + real" where
  "mean data =
     (let n = length data
      in if n < 1 then Inl StatisticsError
         else Inr (to_double (sum_list data / real n)))"

definition median :: "real list \<Rightarrow> py_error + real" where
  "median data0 =
     (let data = sort data0; n = length data
      in if n = 0 then Inl StatisticsError
         else if n mod 2 = 1 then Inr (data ! (n div 2))
         else let i = n div 2
              in Inr (to_double (to_double (data ! (i - 1) + data ! i) / 2)))"

definition stdev :: "real list \<Rightarrow> py_error + real" where
  "stdev data =
     (let n = length data;
          sx = sum_list data;
          sxx = sum_list (map (\<lambda>x. x * x) data)
      in if n < 2 then Inl StatisticsError
         else
           let ss = (real n * sxx - sx * sx) / real n;
               mss = ss / real (n - 1)
           in Inr (to_double (sqrt mss)))"

text \<open>
  The built-in \<^verbatim>\<open>min\<close> and \<^verbatim>\<open>max\<close> keep the first item and replace it by each
  later item that is smaller, respectively larger; on an empty list they raise
  \<^verbatim>\<open>ValueError\<close>.
\<close>

fun py_min :: "real list \<Rightarrow> py_error + real" where
  "py_min [] = Inl ValueError"
| "py_min (x # xs) = Inr (foldl (\<lambda>cur item. if item < cur then item else cur) x xs)"

fun py_max :: "real list \<Rightarrow> py_error + real" where
  "py_max [] = Inl ValueError"
| "py_max (x # xs) = Inr (foldl (\<lambda>cur item. if item > cur then item else cur) x xs)"

text \<open>
  \<^verbatim>\<open>round(x, 1)\<close> of a float \<open>x\<close>: the built-in takes the tenth nearest to the
  exact value of \<open>x\<close>, a value halfway between two tenths going to the one whose last
  digit is even, and returns the double nearest to that tenth.
\<close>

definition py_round1 :: "real \<Rightarrow> real" where
  "py_round1 x = to_double (of_int (round_half_even (x * 10)) / 10)"

text \<open>\<^verbatim>\<open>sum(1 for v in values if P(v))\<close>.\<close>

definition count_if :: "(real \<Rightarrow> bool) \<Rightarrow> real list \<Rightarrow> int" where
  "count_if P values = sum_list (map (\<lambda>v. 1) (filter P values))"

subsection \<open>\<^verbatim>\<open>calculate_statistics\<close>\<close>

record stats =
  st_count :: int
  st_average :: real
  st_median :: real
  st_std_dev :: real
  st_min :: real
  st_max :: real
  st_range :: real
  st_time_in_range :: real
  st_estimated_a1c :: real
  st_critical_low :: int
  st_warning_low :: int
  st_normal :: int
  st_warning_high :: int
  st_critical_high :: int

text \<open>
  The result is \<open>Inr None\<close> for the \<^verbatim>\<open>None\<close> returned on no readings,
  \<open>Inr (Some s)\<close> for the dictionary, and \<open>Inl e\<close> if a library call raised.
  The second evaluations of \<^verbatim>\<open>max(values)\<close> and \<^verbatim>\<open>min(values)\<close> for the range
  give what the first ones gave. The subtraction for the range, the division and the
  multiplication for the time in range, and the addition and the division for the
  estimate are operations on floats, each rounded to a double; \<^verbatim>\<open>46.7\<close> and
  \<^verbatim>\<open>28.7\<close> are the doubles nearest to these decimals.
\<close>

definition calculate_statistics :: "reading_row list \<Rightarrow> py_error + stats option" where
  "calculate_statistics readings =
     (if readings = [] then Inr None
      else
        let values = map r_glucose_value readings in
        case mean values of Inl e \<Rightarrow> Inl e | Inr average \<Rightarrow>
        case median values of Inl e \<Rightarrow> Inl e | Inr med \<Rightarrow>
        case (if length values > 1 then stdev values else Inr 0) of
          Inl e \<Rightarrow> Inl e | Inr std_dev \<Rightarrow>
        case py_min values of Inl e \<Rightarrow> Inl e | Inr mn \<Rightarrow>
        case py_max values of Inl e \<Rightarrow> Inl e | Inr mx \<Rightarrow>
        let normal_count = count_if (\<lambda>v. 70 \<le> v \<and> v \<le> 140) values
        in Inr (Some
             \<lparr>st_count = int (length values),
              st_average = average,
              st_median = med,
              st_std_dev = std_dev,
              st_min = mn,
              st_max = mx,
              st_range = to_double (mx - mn),
              st_time_in_range =
                to_double (to_double (real_of_int normal_count / real (length values)) * 100),
              st_estimated_a1c =
                py_round1 (to_double (to_double (average + to_double 46.7) / to_double 28.7)),
              st_critical_low = count_if (\<lambda>v. v < 54) values,
              st_warning_low = count_if (\<lambda>v. 54 \<le> v \<and> v < 70) values,
              st_normal = normal_count,
              st_warning_high = count_if (\<lambda>v. 140 < v \<and> v \<le> 180) values,
              st_critical_high = count_if (\<lambda>v. v > 180) values\<rparr>))"

section \<open>The notions the properties are stated with\<close>

text \<open>
  The table of thresholds of the classification: a condition on the value and the
  status, severity and alarm flag it gives. The table is read from the top, and the first
  row whose condition holds decides.
\<close>

definition threshold_table :: "((real \<Rightarrow> bool) \<times> string \<times> string \<times> bool) list" where
  "threshold_table =
     [(\<lambda>v. v < 54, ''CRITICAL LOW'', ''critical'', True),
      (\<lambda>v. 54 \<le> v \<and> v < 70, ''WARNING LOW'', ''warning'', True),
      (\<lambda>v. 70 \<le> v \<and> v \<le> 140, ''NORMAL'', ''normal'', False),
      (\<lambda>v. 140 < v \<and> v \<le> 180, ''WARNING HIGH'', ''warning'', True),
      (\<lambda>v. v > 180, ''CRITICAL HIGH'', ''critical'', True)]"

fun first_match :: "(('a \<Rightarrow> bool) \<times> 'b) list \<Rightarrow> 'a \<Rightarrow> 'b option" where
  "first_match [] v = None"
| "first_match ((c, r) # rows) v = (if c v then Some r else first_match rows v)"

text \<open>Status, severity and alarm flag of a result of \<^const>\<open>analyze\<close>.\<close>

definition classification :: "analysis \<Rightarrow> string \<times> string \<times> bool" where
  "classification a = (a_status a, a_severity a, a_alarm a)"

text \<open>
  What \<^const>\<open>update_goal_progress\<close> does to one row of the table of goals.
\<close>

definition set_progress :: "int \<Rightarrow> real \<Rightarrow> int \<Rightarrow> goal_row \<Rightarrow> goal_row" where
  "set_progress goal_id current_value achieved g =
     (if g_id g = goal_id
      then g\<lparr>g_current_value := current_value, g_achieved := achieved\<rparr> else g)"

text \<open>
  The sample standard deviation: the sum of the squared deviations from the mean is
  divided by one less than the number of values, and the square root is taken.
\<close>

definition sample_std_dev :: "real list \<Rightarrow> real" where
  "sample_std_dev V =
     (let m = sum_list V / real (length V)
      in sqrt (sum_list (map (\<lambda>v. (v - m)\<^sup>2) V) / (real (length V) - 1)))"

text \<open>
  A median of a list of values: at least half of the values are at most it, and at least
  half of them are at least it.
\<close>

definition is_median :: "real list \<Rightarrow> real \<Rightarrow> bool" where
  "is_median V m \<longleftrightarrow>
     length V \<le> 2 * length (filter (\<lambda>v. v \<le> m) V)
     \<and> length V \<le> 2 * length (filter (\<lambda>v. m \<le> v) V)"

text \<open>
  The median as it is computed: the middle one of the sorted values, or, when their number
  is even, the mean of the two middle ones in floating point: their sum as a double,
  halved, as a double.
\<close>

definition middle_value :: "real list \<Rightarrow> real" where
  "middle_value V =
     (let s = sort V; n = length V
      in if odd n then s ! (n div 2)
         else to_double (to_double (s ! (n div 2 - 1) + s ! (n div 2)) / 2))"

text \<open>The real numbers that are doubles: the rounding leaves them as they are.\<close>

definition is_double :: "real \<Rightarrow> bool" where
  "is_double x \<longleftrightarrow> to_double x = x"

text \<open>
  Rounding to one decimal place, a value halfway between two tenths going to the upper
  one.
\<close>

definition round_half_up1 :: "real \<Rightarrow> real" where
  "round_half_up1 x = of_int \<lfloor>x * 10 + 1 / 2\<rfloor> / 10"

text \<open>The entry \<^verbatim>\<open>estimated_a1c\<close> of the statistics of a list of readings, if there is one.\<close>

definition estimated_a1c_of :: "reading_row list \<Rightarrow> real option" where
  "estimated_a1c_of readings =
     (case calculate_statistics readings of
        Inr (Some st) \<Rightarrow> Some (st_estimated_a1c st)
      | _ \<Rightarrow> None)"

section \<open>Example data\<close>

definition example_now :: datetime where
  "example_now =
     \<lparr>dt_year = 2024, dt_month = 3, dt_day = 15, dt_hour = 10, dt_minute = 30, dt_second = 0\<rparr>"

text \<open>
  A store with two patients and five readings. Reading 2 was taken on the day of the
  cutoff of a window of 30 days, four and a half hours before the time of day of
  \<^const>\<open>example_now\<close>.
\<close>

definition example_db :: database where
  "example_db =
     \<lparr>t_patients =
        [\<lparr>p_id = 1, p_name = ''Alice'', p_age = 30, p_diabetes_type = ''Type 1'',
          p_target_min = 70, p_target_max = 140, p_created_date = ''2024-01-01 09:00:00''\<rparr>,
         \<lparr>p_id = 2, p_name = ''Bob'', p_age = 52, p_diabetes_type = ''Type 2'',
          p_target_min = 70, p_target_max = 140, p_created_date = ''2024-01-02 09:00:00''\<rparr>],
      t_readings =
        [\<lparr>r_id = 1, r_patient_id = 1, r_glucose_value = 95, r_status = ''NORMAL'',
          r_condition = ''Fasting'', r_timestamp = ''2024-01-10 08:00:00''\<rparr>,
         \<lparr>r_id = 2, r_patient_id = 1, r_glucose_value = 110, r_status = ''NORMAL'',
          r_condition = ''Fasting'', r_timestamp = ''2024-02-14 06:00:00''\<rparr>,
         \<lparr>r_id = 3, r_patient_id = 1, r_glucose_value = 150, r_status = ''WARNING HIGH'',
          r_condition = ''After Meal'', r_timestamp = ''2024-03-01 12:00:00''\<rparr>,
         \<lparr>r_id = 4, r_patient_id = 2, r_glucose_value = 200, r_status = ''CRITICAL HIGH'',
          r_condition = ''Random'', r_timestamp = ''2024-03-02 09:00:00''\<rparr>,
         \<lparr>r_id = 5, r_patient_id = 1, r_glucose_value = 60, r_status = ''WARNING LOW'',
          r_condition = ''Fasting'', r_timestamp = ''2024-03-10 07:30:00''\<rparr>],
      t_goals = [],
      seq_patients = 2, seq_readings = 5, seq_goals = 0\<rparr>"

text \<open>A new store after \<^verbatim>\<open>add_patient("Alice", 30, "Type 1")\<close>.\<close>

definition alice_db :: database where
  "alice_db = snd (add_patient (init_database None) example_now ''Alice'' 30 ''Type 1'')"

text \<open>A store with one patient and one goal, as \<^const>\<open>add_goal\<close> leaves it.\<close>

definition goal_db :: database where
  "goal_db =
     \<lparr>t_patients =
        [\<lparr>p_id = 1, p_name = ''Alice'', p_age = 30, p_diabetes_type = ''Type 1'',
          p_target_min = 70, p_target_max = 140, p_created_date = ''2024-01-01 09:00:00''\<rparr>],
      t_readings = [],
      t_goals =
        [\<lparr>g_id = 1, g_patient_id = 1, g_goal_type = ''Time in Range'', g_target_value = 80,
          g_current_value = 0, g_start_date = ''2024-03-15'', g_end_date = ''2024-04-14'',
          g_achieved = 0\<rparr>],
      seq_patients = 1, seq_readings = 0, seq_goals = 1\<rparr>"

text \<open>
  A reading of a value as the caller stores it, with the status and the timestamp that
  \<^const>\<open>analyze\<close> gave; the readings of the example of the specification; and a
  single reading whose estimate lies halfway between two tenths: 161.375 is a binary
  fraction, and \<open>(161.375 + 46.7) / 28.7 = 7.25\<close>.
\<close>

definition example_reading :: "real \<Rightarrow> reading_row" where
  "example_reading v =
     \<lparr>r_id = 1, r_patient_id = 1, r_glucose_value = v,
      r_status = a_status (analyze example_now v),
      r_condition = ''Fasting'', r_timestamp = a_timestamp (analyze example_now v)\<rparr>"

definition stats_example :: "reading_row list" where
  "stats_example = map example_reading [100, 120, 140, 160, 180]"

definition tie_example :: "reading_row list" where
  "tie_example = [example_reading 161.375]"

text \<open>
  Three readings whose values are the doubles written \<^verbatim>\<open>90.1\<close>, \<^verbatim>\<open>150.2\<close> and
  \<^verbatim>\<open>200.4\<close>, on which the operations round; and a single reading, 591.875, for
  which the exact estimate is 22.25 and the quotient of the doubles lies just above it.
\<close>

definition float_example :: "reading_row list" where
  "float_example = map example_reading [to_double 90.1, to_double 150.2, to_double 200.4]"

definition drift_example :: "reading_row list" where
  "drift_example = [example_reading 591.875]"

section \<open>The classification\<close>

lemmas thresholds =
  CRITICAL_LOW_def WARNING_LOW_def NORMAL_LOW_def NORMAL_HIGH_def WARNING_HIGH_def

lemma analyze_cases:
  "classification (analyze now v) =
     (if v < 54 then (''CRITICAL LOW'', ''critical'', True)
      else if v < 70 then (''WARNING LOW'', ''warning'', True)
      else if v \<le> 140 then (''NORMAL'', ''normal'', False)
      else if v \<le> 180 then (''WARNING HIGH'', ''warning'', True)
      else (''CRITICAL HIGH'', ''critical'', True))"
  by (simp add: analyze_def classification_def thresholds Let_def)

text \<open>
  Claim C1. For every value \<open>v\<close>, with no bound on it, \<^const>\<open>analyze\<close> gives the status,
  severity and alarm flag of the first row of the threshold table whose condition \<open>v\<close>
  meets, and some row always does: below 54 \<open>CRITICAL LOW\<close>, critical, alarm; from 54
  to below 70 \<open>WARNING LOW\<close>, warning, alarm; from 70 to 140 \<open>NORMAL\<close>, normal, no
  alarm; above 140 up to 180 \<open>WARNING HIGH\<close>, warning, alarm; above 180
  \<open>CRITICAL HIGH\<close>, critical, alarm.
\<close>

theorem analyze_threshold_table:
  "first_match threshold_table v = Some (classification (analyze now v))
   \<and> (v < 54 \<longrightarrow>
        classification (analyze now v) = (''CRITICAL LOW'', ''critical'', True))
   \<and> (54 \<le> v \<and> v < 70 \<longrightarrow>
        classification (analyze now v) = (''WARNING LOW'', ''warning'', True))
   \<and> (70 \<le> v \<and> v \<le> 140 \<longrightarrow>
        classification (analyze now v) = (''NORMAL'', ''normal'', False))
   \<and> (140 < v \<and> v \<le> 180 \<longrightarrow>
        classification (analyze now v) = (''WARNING HIGH'', ''warning'', True))
   \<and> (v > 180 \<longrightarrow>
        classification (analyze now v) = (''CRITICAL HIGH'', ''critical'', True))"
  unfolding analyze_cases by (simp add: threshold_table_def)

text \<open>The five rows at \<open>-5\<close>, 54, 140, 180 and 1001.\<close>

theorem analyze_threshold_table_witness:
  "((-5::real) < 54
      \<and> classification (analyze example_now (-5)) = (''CRITICAL LOW'', ''critical'', True))
   \<and> ((54::real) \<le> 54 \<and> (54::real) < 70
      \<and> classification (analyze example_now 54) = (''WARNING LOW'', ''warning'', True))
   \<and> ((70::real) \<le> 140 \<and> (140::real) \<le> 140
      \<and> classification (analyze example_now 140) = (''NORMAL'', ''normal'', False))
   \<and> ((140::real) < 180 \<and> (180::real) \<le> 180
      \<and> classification (analyze example_now 180) = (''WARNING HIGH'', ''warning'', True))
   \<and> ((1001::real) > 180
      \<and> classification (analyze example_now 1001) = (''CRITICAL HIGH'', ''critical'', True))"
  using analyze_threshold_table [of "-5" example_now]
        analyze_threshold_table [of 54 example_now]
        analyze_threshold_table [of 140 example_now]
        analyze_threshold_table [of 180 example_now]
        analyze_threshold_table [of 1001 example_now]
  by simp

section \<open>The statistics\<close>

text \<open>
  Claim C7. On no readings \<^const>\<open>calculate_statistics\<close> returns \<^verbatim>\<open>None\<close>, the
  absent result, and no dictionary of statistics.
\<close>

theorem calculate_statistics_empty:
  "calculate_statistics [] = Inr None"
  by (simp add: calculate_statistics_def)

subsection \<open>Rounding to doubles\<close>

text \<open>
  The rounding is symmetric and monotone: a number between two doubles is rounded to a
  double between them. Twice a double is a double.
\<close>

lemmas double_eval =
  to_double_def exponent_def pow2_def round_half_even_def Let_def compute_bitlen

lemma pow2_powr: "pow2 q = 2 powr real_of_int q"
proof (cases "0 \<le> q")
  case True
  then have "2 powr real_of_int q = 2 powr real (nat q)" by simp
  also have "\<dots> = 2 ^ nat q" by (rule powr_realpow) simp
  finally show ?thesis using True by (simp add: pow2_def)
next
  case False
  then have "2 powr real_of_int q = 2 powr (- real (nat (- q)))" by simp
  also have "\<dots> = 1 / 2 powr real (nat (- q))" by (simp add: powr_minus_divide)
  also have "2 powr real (nat (- q)) = 2 ^ nat (- q)" by (rule powr_realpow) simp
  finally show ?thesis using False by (simp add: pow2_def)
qed

lemma pow2_pos: "0 < pow2 q"
  by (simp add: pow2_powr)

lemma pow2_add: "pow2 (a + b) = pow2 a * pow2 b"
  by (simp add: pow2_powr powr_add)

lemma pow2_less_iff: "pow2 a < pow2 b \<longleftrightarrow> a < b"
  by (simp add: pow2_powr)

lemma pow2_le_iff: "pow2 a \<le> pow2 b \<longleftrightarrow> a \<le> b"
  by (simp add: pow2_powr)

lemma pow2_nonneg_int: "0 \<le> q \<Longrightarrow> pow2 q = of_int (2 ^ nat q)"
  by (simp add: pow2_def)

lemma exponent_bounds:
  assumes "0 < x"
  shows "pow2 (exponent x) \<le> x" and "x < pow2 (exponent x + 1)"
proof -
  have "pow2 (exponent x) \<le> x \<and> x < pow2 (exponent x + 1)"
  proof (cases "1 \<le> x")
    case True
    define b where "b = bitlen \<lfloor>x\<rfloor>"
    have fx: "0 < \<lfloor>x\<rfloor>" using True by simp
    have b: "2 ^ nat (b - 1) \<le> \<lfloor>x\<rfloor>" "\<lfloor>x\<rfloor> < 2 ^ nat b"
      using bitlen_bounds [OF fx] by (simp_all add: b_def)
    have b1: "1 \<le> b"
      using fx by (simp add: b_def bitlen_alt_def)
    have e: "exponent x = b - 1" using True by (simp add: exponent_def b_def)
    have "real_of_int (2 ^ nat (b - 1)) \<le> real_of_int \<lfloor>x\<rfloor>"
      using b(1) by (simp only: of_int_le_iff)
    also have "\<dots> \<le> x" by simp
    finally have lo: "pow2 (b - 1) \<le> x"
      using b1 by (simp add: pow2_def)
    have "\<lfloor>x\<rfloor> + 1 \<le> 2 ^ nat b" using b(2) by simp
    then have "real_of_int (\<lfloor>x\<rfloor> + 1) \<le> real_of_int (2 ^ nat b)"
      by (simp only: of_int_le_iff)
    moreover have "x < real_of_int (\<lfloor>x\<rfloor> + 1)" by linarith
    ultimately have "x < real_of_int (2 ^ nat b)" by linarith
    then have hi: "x < pow2 b"
      using b1 by (simp add: pow2_def)
    show ?thesis using lo hi by (simp add: e)
  next
    case False
    then have x1: "x < 1" by simp
    define m where "m = \<lceil>1 / x\<rceil>"
    define c where "c = bitlen (m - 1)"
    have inv: "1 < 1 / x" using assms x1 by simp
    then have m2: "2 \<le> m" unfolding m_def by linarith
    then have m1: "0 < m - 1" by simp
    have b: "2 ^ nat (c - 1) \<le> m - 1" "m - 1 < 2 ^ nat c"
      using bitlen_bounds [OF m1] by (simp_all add: c_def)
    have c1: "1 \<le> c"
      using m1 by (simp add: c_def bitlen_alt_def)
    have e: "exponent x = - c" using False by (simp add: exponent_def c_def m_def)
    have "m \<le> 2 ^ nat c" using b(2) by simp
    then have "real_of_int m \<le> real_of_int (2 ^ nat c)" by (simp only: of_int_le_iff)
    moreover have "1 / x \<le> real_of_int m" unfolding m_def by linarith
    ultimately have "1 / x \<le> real_of_int (2 ^ nat c)" by linarith
    then have "1 / x \<le> 2 ^ nat c" by simp
    then have "1 \<le> x * 2 ^ nat c"
      using assms by (simp add: field_simps)
    then have lo: "pow2 (- c) \<le> x"
      using c1 by (simp add: pow2_def field_simps)
    have "real_of_int (2 ^ nat (c - 1)) \<le> real_of_int (m - 1)"
      using b(1) by (simp only: of_int_le_iff)
    moreover have "real_of_int (m - 1) < 1 / x" unfolding m_def by linarith
    ultimately have "real_of_int (2 ^ nat (c - 1)) < 1 / x" by linarith
    then have "2 ^ nat (c - 1) < 1 / x" by simp
    then have "x * 2 ^ nat (c - 1) < 1"
      using assms by (simp add: field_simps)
    then have hi: "x < pow2 (- c + 1)"
    proof (cases "c = 1")
      case True
      then show ?thesis using x1 by (simp add: pow2_def)
    next
      case False
      with c1 have "1 < c" by simp
      moreover have "nat (c - 1) = nat (- (- c + 1))" by simp
      ultimately show ?thesis
        using \<open>x * 2 ^ nat (c - 1) < 1\<close> by (simp add: pow2_def field_simps)
    qed
    show ?thesis using lo hi by (simp add: e)
  qed
  then show "pow2 (exponent x) \<le> x" and "x < pow2 (exponent x + 1)" by simp_all
qed

lemma exponent_unique:
  assumes "pow2 e \<le> x" and "x < pow2 (e + 1)"
  shows "exponent x = e"
proof -
  have x: "0 < x" using assms(1) pow2_pos [of e] by linarith
  note b = exponent_bounds [OF x]
  have "pow2 e < pow2 (exponent x + 1)" using assms(1) b(2) by linarith
  then have "e < exponent x + 1" by (simp only: pow2_less_iff)
  moreover have "pow2 (exponent x) < pow2 (e + 1)" using assms(2) b(1) by linarith
  then have "exponent x < e + 1" by (simp only: pow2_less_iff)
  ultimately show ?thesis by simp
qed

lemma exponent_mono:
  assumes "0 < x" and "x \<le> y"
  shows "exponent x \<le> exponent y"
proof -
  have y: "0 < y" using assms by simp
  have "pow2 (exponent x) \<le> x" by (rule exponent_bounds(1) [OF assms(1)])
  also note assms(2)
  also have "y < pow2 (exponent y + 1)" by (rule exponent_bounds(2) [OF y])
  finally have "exponent x < exponent y + 1" by (simp only: pow2_less_iff)
  then show ?thesis by simp
qed

lemma round_half_even_bounds:
  shows "\<lfloor>y\<rfloor> \<le> round_half_even y" and "round_half_even y \<le> \<lceil>y\<rceil>"
proof -
  define f where "f = \<lfloor>y\<rfloor>"
  define d where "d = y - of_int f"
  have r: "round_half_even y =
      (if d < 1 / 2 then f else if d > 1 / 2 then f + 1 else if even f then f else f + 1)"
    by (simp only: round_half_even_def Let_def f_def d_def)
  show "\<lfloor>y\<rfloor> \<le> round_half_even y"
    unfolding r f_def [symmetric] by simp
  show "round_half_even y \<le> \<lceil>y\<rceil>"
  proof (cases "d = 0")
    case True
    have "f \<le> \<lceil>y\<rceil>" unfolding f_def by linarith
    with True show ?thesis unfolding r by simp
  next
    case False
    have "0 \<le> d" unfolding d_def f_def by linarith
    with False have "real_of_int f < y" by (simp add: d_def)
    then have "f < \<lceil>y\<rceil>" by linarith
    then show ?thesis unfolding r by simp
  qed
qed

lemma round_half_even_of_int [simp]: "round_half_even (of_int n) = n"
  by (simp add: round_half_even_def)

lemma round_half_even_minus: "round_half_even (- y) = - round_half_even y"
proof (cases "y = of_int \<lfloor>y\<rfloor>")
  case True
  then obtain n where "y = of_int n" ..
  then have "round_half_even (- y) = round_half_even (of_int (- n))" by simp
  also have "\<dots> = - n" by (rule round_half_even_of_int)
  finally show ?thesis using \<open>y = of_int n\<close> by simp
next
  case False
  define f where "f = \<lfloor>y\<rfloor>"
  define d where "d = y - of_int f"
  have d0: "0 < d" and d1: "d < 1"
    using False unfolding d_def f_def by linarith+
  have fm: "\<lfloor>- y\<rfloor> = - f - 1"
    using d0 d1 unfolding d_def by linarith
  have dm: "- y - of_int \<lfloor>- y\<rfloor> = 1 - d"
    unfolding fm by (simp add: d_def)
  have r: "round_half_even y =
      (if d < 1 / 2 then f else if d > 1 / 2 then f + 1 else if even f then f else f + 1)"
    by (simp only: round_half_even_def Let_def f_def d_def)
  have rm: "round_half_even (- y) =
      (if 1 - d < 1 / 2 then - f - 1 else if 1 - d > 1 / 2 then - f - 1 + 1
       else if even (- f - 1) then - f - 1 else - f - 1 + 1)"
    unfolding round_half_even_def Let_def dm unfolding fm by (rule refl)
  show ?thesis
    unfolding r rm by auto
qed

lemma to_double_minus: "to_double (- x) = - to_double x"
  by (simp add: to_double_def Let_def round_half_even_minus)

lemma to_double_pos_nonneg: "0 < x \<Longrightarrow> 0 \<le> to_double x"
proof -
  assume x: "0 < x"
  define q where "q = max (exponent \<bar>x\<bar> - 52) (- 1074)"
  have "0 \<le> x / pow2 q" using x pow2_pos [of q] by simp
  then have "0 \<le> \<lfloor>x / pow2 q\<rfloor>" by simp
  then have "0 \<le> round_half_even (x / pow2 q)"
    using round_half_even_bounds(1) [of "x / pow2 q"] by linarith
  then have "0 \<le> of_int (round_half_even (x / pow2 q)) * pow2 q"
    using pow2_pos [of q] by simp
  then show ?thesis
    using x by (simp add: to_double_def Let_def q_def)
qed

lemma to_double_pos:
  assumes "0 < x"
  shows "to_double x =
     of_int (round_half_even (x / pow2 (max (exponent x - 52) (- 1074))))
       * pow2 (max (exponent x - 52) (- 1074))"
  using assms by (simp add: to_double_def Let_def)

lemma double_multiple:
  assumes "0 < d" and "is_double d" and "q \<le> max (exponent d - 52) (- 1074)"
  shows "\<exists>N. d = of_int N * pow2 q"
proof -
  define qd where "qd = max (exponent d - 52) (- 1074)"
  define M where "M = round_half_even (d / pow2 qd)"
  have d: "d = of_int M * pow2 qd"
    using assms(2) to_double_pos [OF assms(1)] by (simp add: is_double_def M_def qd_def)
  have k: "0 \<le> qd - q" using assms(3) by (simp add: qd_def)
  have "pow2 qd = pow2 (qd - q) * pow2 q"
    using pow2_add [of "qd - q" q] by simp
  also have "pow2 (qd - q) = of_int (2 ^ nat (qd - q))"
    by (rule pow2_nonneg_int [OF k])
  finally have "d = of_int (M * 2 ^ nat (qd - q)) * pow2 q"
    using d by simp
  then show ?thesis ..
qed

lemma to_double_le:
  assumes "0 < x" and "x \<le> d" and "is_double d"
  shows "to_double x \<le> d"
proof -
  define q where "q = max (exponent x - 52) (- 1074)"
  have dpos: "0 < d" using assms by simp
  have "exponent x \<le> exponent d" by (rule exponent_mono [OF assms(1,2)])
  then have "q \<le> max (exponent d - 52) (- 1074)" by (simp add: q_def)
  then obtain N where N: "d = of_int N * pow2 q"
    using double_multiple [OF dpos assms(3)] by blast
  have "x / pow2 q \<le> of_int N"
    using assms(2) pow2_pos [of q] by (simp add: N field_simps)
  then have "\<lceil>x / pow2 q\<rceil> \<le> N" by (simp add: ceiling_le_iff)
  then have "round_half_even (x / pow2 q) \<le> N"
    using round_half_even_bounds(2) [of "x / pow2 q"] by linarith
  then have "real_of_int (round_half_even (x / pow2 q)) \<le> real_of_int N"
    by (simp only: of_int_le_iff)
  then have "of_int (round_half_even (x / pow2 q)) * pow2 q \<le> of_int N * pow2 q"
    using pow2_pos [of q] by (simp only: mult_le_cancel_right_pos)
  then show ?thesis
    unfolding to_double_pos [OF assms(1)] q_def [symmetric] N .
qed

lemma to_double_ge:
  assumes "0 < d" and "d \<le> x" and "is_double d"
  shows "d \<le> to_double x"
proof -
  define q where "q = max (exponent x - 52) (- 1074)"
  define qd where "qd = max (exponent d - 52) (- 1074)"
  have xpos: "0 < x" using assms by simp
  have ee: "exponent d \<le> exponent x" by (rule exponent_mono [OF assms(1,2)])
  have fl: "to_double x = of_int (round_half_even (x / pow2 q)) * pow2 q"
    unfolding to_double_pos [OF xpos] q_def ..
  show ?thesis
  proof (cases "q \<le> qd")
    case True
    then obtain N where N: "d = of_int N * pow2 q"
      using double_multiple [OF assms(1,3)] unfolding qd_def by blast
    have "of_int N \<le> x / pow2 q"
      using assms(2) pow2_pos [of q] by (simp add: N field_simps)
    then have "N \<le> \<lfloor>x / pow2 q\<rfloor>" by (simp add: le_floor_iff)
    then have "N \<le> round_half_even (x / pow2 q)"
      using round_half_even_bounds(1) [of "x / pow2 q"] by linarith
    then have "real_of_int N \<le> real_of_int (round_half_even (x / pow2 q))"
      by (simp only: of_int_le_iff)
    then have "of_int N * pow2 q \<le> of_int (round_half_even (x / pow2 q)) * pow2 q"
      using pow2_pos [of q] by (simp only: mult_le_cancel_right_pos)
    then show ?thesis unfolding fl N .
  next
    case False
    then have qq: "q = exponent x - 52" and lt: "exponent d < exponent x"
      unfolding q_def qd_def by linarith+
    have "d < pow2 (exponent d + 1)" by (rule exponent_bounds(2) [OF assms(1)])
    also have "\<dots> \<le> pow2 (exponent x)" using lt by (simp add: pow2_le_iff)
    finally have dlt: "d < pow2 (exponent x)" .
    have "pow2 (exponent x) = pow2 52 * pow2 q"
      using pow2_add [of 52 q] by (simp add: qq)
    also have "pow2 52 = of_int (2 ^ 52)" by (simp add: pow2_def)
    finally have pe: "pow2 (exponent x) = of_int (2 ^ 52) * pow2 q" .
    have "pow2 (exponent x) \<le> x" by (rule exponent_bounds(1) [OF xpos])
    then have "of_int (2 ^ 52) \<le> x / pow2 q"
      using pow2_pos [of q] unfolding pe by (simp add: field_simps)
    then have "2 ^ 52 \<le> \<lfloor>x / pow2 q\<rfloor>" by (simp only: le_floor_iff)
    then have "2 ^ 52 \<le> round_half_even (x / pow2 q)"
      using round_half_even_bounds(1) [of "x / pow2 q"] by linarith
    then have "real_of_int (2 ^ 52) \<le> real_of_int (round_half_even (x / pow2 q))"
      by (simp only: of_int_le_iff)
    then have "of_int (2 ^ 52) * pow2 q \<le> of_int (round_half_even (x / pow2 q)) * pow2 q"
      using pow2_pos [of q] by (simp only: mult_le_cancel_right_pos)
    then have "pow2 (exponent x) \<le> to_double x" unfolding fl pe .
    with dlt show ?thesis by linarith
  qed
qed

lemma is_double_zero: "is_double 0"
  by (simp add: is_double_def to_double_def)

lemma is_double_minus: "is_double x \<Longrightarrow> is_double (- x)"
  by (simp add: is_double_def to_double_minus)

lemma to_double_between:
  assumes "is_double lo" and "is_double hi" and "lo \<le> x" and "x \<le> hi"
  shows "lo \<le> to_double x" and "to_double x \<le> hi"
proof -
  have "lo \<le> to_double x \<and> to_double x \<le> hi"
  proof (cases "x = 0")
    case True
    then show ?thesis using assms(3,4) by (simp add: to_double_def)
  next
    case False
    show ?thesis
    proof (cases "0 < x")
      case True
      have hi: "to_double x \<le> hi"
        by (rule to_double_le [OF True assms(4,2)])
      have lo: "lo \<le> to_double x"
      proof (cases "0 < lo")
        case True
        then show ?thesis by (rule to_double_ge [OF _ assms(3,1)])
      next
        case False
        then show ?thesis using to_double_pos_nonneg [OF True] by linarith
      qed
      show ?thesis using lo hi ..
    next
      case neg: False
      with \<open>x \<noteq> 0\<close> have x: "0 < - x" by simp
      have lo: "to_double (- x) \<le> - lo"
        by (rule to_double_le [OF x _ is_double_minus [OF assms(1)]]) (use assms(3) in simp)
      have hi: "- hi \<le> to_double (- x)"
      proof (cases "0 < - hi")
        case True
        then show ?thesis
          by (rule to_double_ge [OF _ _ is_double_minus [OF assms(2)]]) (use assms(4) in simp)
      next
        case False
        then show ?thesis using to_double_pos_nonneg [OF x] by linarith
      qed
      show ?thesis using lo hi by (simp add: to_double_minus)
    qed
  qed
  then show "lo \<le> to_double x" and "to_double x \<le> hi" by simp_all
qed

lemma is_double_multiple:
  assumes "0 < x" and "x = of_int N * pow2 (max (exponent x - 52) (- 1074))"
  shows "is_double x"
proof -
  define q where "q = max (exponent x - 52) (- 1074)"
  have xq: "x = of_int N * pow2 q"
    using assms(2) unfolding q_def .
  have "of_int N * pow2 q / pow2 q = real_of_int N"
    using pow2_pos [of q] by simp
  then have "x / pow2 q = of_int N"
    by (simp only: xq [symmetric])
  then have "round_half_even (x / pow2 q) = N" by simp
  then have "to_double x = of_int N * pow2 q"
    unfolding to_double_pos [OF assms(1)] q_def [symmetric] by simp
  then show ?thesis
    using assms(2) by (simp add: is_double_def q_def)
qed

lemma is_double_twice:
  assumes "is_double a"
  shows "is_double (2 * a)"
proof -
  have pos: "is_double (2 * a)" if a: "0 < a" and d: "is_double a" for a
  proof -
    define e where "e = exponent a"
    define q where "q = max (e - 52) (- 1074)"
    define q' where "q' = max (e + 1 - 52) (- 1074)"
    have "pow2 (e + 1) = 2 * pow2 e" "pow2 (e + 1 + 1) = 2 * pow2 (e + 1)"
      using pow2_add [of e 1] pow2_add [of "e + 1" 1] by (simp_all add: pow2_def)
    then have "pow2 (e + 1) \<le> 2 * a" "2 * a < pow2 (e + 1 + 1)"
      using exponent_bounds [OF a] by (simp_all add: e_def)
    then have e2: "exponent (2 * a) = e + 1" by (rule exponent_unique)
    obtain M where M: "a = of_int M * pow2 q"
      using double_multiple [OF a d, of q] by (auto simp: q_def e_def)
    have "\<exists>N. 2 * a = of_int N * pow2 q'"
    proof (cases "- 1074 \<le> e - 52")
      case True
      then have "q' = q + 1" by (simp add: q_def q'_def)
      then have "pow2 q' = 2 * pow2 q"
        using pow2_add [of q 1] by (simp add: pow2_def)
      then have "2 * a = of_int M * pow2 q'" using M by simp
      then show ?thesis ..
    next
      case False
      then have "q' = q" by (simp add: q_def q'_def)
      then have "2 * a = of_int (2 * M) * pow2 q'" using M by simp
      then show ?thesis ..
    qed
    then obtain N where N: "2 * a = of_int N * pow2 q'" ..
    have "q' = max (exponent (2 * a) - 52) (- 1074)"
      by (simp only: e2 q'_def)
    with N have "2 * a = of_int N * pow2 (max (exponent (2 * a) - 52) (- 1074))"
      by (simp only:)
    moreover have "0 < 2 * a" using a by simp
    ultimately show ?thesis
      by (rule is_double_multiple [rotated])
  qed
  consider "a = 0" | "0 < a" | "0 < - a" by linarith
  then show ?thesis
  proof cases
    case 1
    then show ?thesis by (simp add: is_double_zero)
  next
    case 2
    then show ?thesis by (rule pos [OF _ assms])
  next
    case 3
    have "is_double (2 * (- a))"
      by (rule pos [OF 3 is_double_minus [OF assms]])
    then have "is_double (- (2 * (- a)))" by (rule is_double_minus)
    then show ?thesis by simp
  qed
qed

lemma double_mean_between:
  assumes "is_double a" and "is_double b" and "a \<le> b"
  shows "a \<le> to_double (to_double (a + b) / 2)" and "to_double (to_double (a + b) / 2) \<le> b"
proof -
  have "2 * a \<le> to_double (a + b)" "to_double (a + b) \<le> 2 * b"
    using to_double_between [OF is_double_twice [OF assms(1)] is_double_twice [OF assms(2)],
        of "a + b"] assms(3)
    by simp_all
  then have "a \<le> to_double (a + b) / 2" "to_double (a + b) / 2 \<le> b"
    by simp_all
  then show "a \<le> to_double (to_double (a + b) / 2)"
    and "to_double (to_double (a + b) / 2) \<le> b"
    using to_double_between [OF assms(1,2)] by blast+
qed

lemma round_half_even_nearest:
  "\<bar>of_int (round_half_even y) - y\<bar> \<le> 1 / 2
   \<and> (\<bar>of_int (round_half_even y) - y\<bar> = 1 / 2 \<longrightarrow> even (round_half_even y))"
proof -
  define f where "f = \<lfloor>y\<rfloor>"
  define d where "d = y - of_int f"
  have d0: "0 \<le> d" and d1: "d < 1"
    unfolding d_def f_def by linarith+
  have y: "y = of_int f + d"
    by (simp add: d_def)
  have r: "round_half_even y =
      (if d < 1 / 2 then f else if d > 1 / 2 then f + 1 else if even f then f else f + 1)"
    by (simp only: round_half_even_def Let_def f_def d_def)
  consider "d < 1 / 2" | "d > 1 / 2" | "d = 1 / 2" "even f" | "d = 1 / 2" "odd f"
    by fastforce
  then show ?thesis
  proof cases
    case 1
    then have "round_half_even y = f" by (simp add: r)
    then show ?thesis using 1 d0 by (simp add: d_def)
  next
    case 2
    then have "round_half_even y = f + 1" by (simp add: r)
    then show ?thesis using 2 d1 by (simp add: d_def)
  next
    case 3
    then have "round_half_even y = f" by (simp add: r)
    then show ?thesis using 3 by (simp add: d_def)
  next
    case 4
    then have "round_half_even y = f + 1" by (simp add: r)
    then show ?thesis using 4 by (simp add: d_def)
  qed
qed

lemma py_round1_nearest:
  "\<exists>k. py_round1 x = to_double (of_int k / 10)
       \<and> \<bar>of_int k / 10 - x\<bar> \<le> 1 / 20
       \<and> (\<bar>of_int k / 10 - x\<bar> = 1 / 20 \<longrightarrow> even k)"
proof -
  define k where "k = round_half_even (x * 10)"
  have n: "\<bar>of_int k - x * 10\<bar> \<le> 1 / 2"
    and e: "\<bar>of_int k - x * 10\<bar> = 1 / 2 \<longrightarrow> even k"
    unfolding k_def using round_half_even_nearest [of "x * 10"] by blast+
  have a: "\<bar>of_int k / 10 - x\<bar> = \<bar>of_int k - x * 10\<bar> / 10"
    by (simp add: abs_if field_simps)
  have "py_round1 x = to_double (of_int k / 10)"
    by (simp add: py_round1_def k_def)
  moreover have "\<bar>of_int k / 10 - x\<bar> \<le> 1 / 20"
    unfolding a using n by simp
  moreover have "\<bar>of_int k / 10 - x\<bar> = 1 / 20 \<longrightarrow> even k"
    unfolding a using e by simp
  ultimately show ?thesis by blast
qed

text \<open>
  The doubles written \<^verbatim>\<open>46.7\<close> and \<^verbatim>\<open>28.7\<close>, and 57 in 100 as a percentage,
  which in floating point is \<^verbatim>\<open>56.99999999999999\<close>.
\<close>

lemma double_examples:
  "to_double 46.7 = 3286220353096909 / 70368744177664"
  "to_double 28.7 = 8078331831595827 / 281474976710656"
  "to_double (to_double (57 / 100) * 100) = 8022036836253695 / 140737488355328"
  by (simp_all add: double_eval)

subsection \<open>The library functions\<close>

lemma mean_nonempty:
  "xs \<noteq> [] \<Longrightarrow> mean xs = Inr (to_double (sum_list xs / real (length xs)))"
  by (cases xs) (simp_all add: mean_def)

lemma median_nonempty: "xs \<noteq> [] \<Longrightarrow> median xs = Inr (middle_value xs)"
  by (cases xs) (simp_all add: median_def middle_value_def Let_def odd_iff_mod_2_eq_one)

lemma sum_sq_dev:
  "sum_list (map (\<lambda>v. (v - c)\<^sup>2) V) =
     sum_list (map (\<lambda>x. x * x) V) - 2 * c * sum_list V + real (length V) * c\<^sup>2"
  by (induction V) (simp_all add: power2_eq_square algebra_simps)

lemma stdev_sample:
  assumes "2 \<le> length xs"
  shows "stdev xs = Inr (to_double (sample_std_dev xs))"
proof -
  let ?n = "real (length xs)"
  let ?sx = "sum_list xs"
  let ?sxx = "sum_list (map (\<lambda>x. x * x) xs)"
  have n: "?n \<noteq> 0" using assms by auto
  have "sum_list (map (\<lambda>v. (v - ?sx / ?n)\<^sup>2) xs) = (?n * ?sxx - ?sx * ?sx) / ?n"
    unfolding sum_sq_dev using n by (simp add: power2_eq_square field_simps)
  moreover have "real (length xs - 1) = ?n - 1"
    using assms by (simp add: of_nat_diff)
  ultimately show ?thesis
    using assms by (simp add: stdev_def sample_std_dev_def Let_def)
qed

lemma py_min_Min: "xs \<noteq> [] \<Longrightarrow> py_min xs = Inr (Min (set xs))"
proof (cases xs)
  case Nil
  assume "xs \<noteq> []"
  with Nil show ?thesis by simp
next
  case (Cons x ys)
  have "(\<lambda>cur item. if item < cur then item else cur) = (\<lambda>cur item :: real. min item cur)"
    by (auto simp: fun_eq_iff)
  then have "foldl (\<lambda>cur item. if item < cur then item else cur) x ys = fold min ys x"
    by (simp add: foldl_conv_fold)
  also have "\<dots> = Min (set (x # ys))"
    by (rule Min.set_eq_fold [symmetric])
  finally show ?thesis
    using Cons by simp
qed

lemma py_max_Max: "xs \<noteq> [] \<Longrightarrow> py_max xs = Inr (Max (set xs))"
proof (cases xs)
  case Nil
  assume "xs \<noteq> []"
  with Nil show ?thesis by simp
next
  case (Cons x ys)
  have "(\<lambda>cur item. if item > cur then item else cur) = (\<lambda>cur item :: real. max item cur)"
    by (auto simp: fun_eq_iff)
  then have "foldl (\<lambda>cur item. if item > cur then item else cur) x ys = fold max ys x"
    by (simp add: foldl_conv_fold)
  also have "\<dots> = Max (set (x # ys))"
    by (rule Max.set_eq_fold [symmetric])
  finally show ?thesis
    using Cons by simp
qed

lemma count_if_length: "count_if P xs = int (length (filter P xs))"
  unfolding count_if_def by (induction xs) simp_all

lemma length_filter_sort:
  "length (filter P (sort xs)) = length (filter P xs)"
proof -
  have "mset (filter P (sort xs)) = mset (filter P xs)"
    by simp
  then show ?thesis
    by (metis size_mset)
qed

lemma sorted_count_le:
  fixes xs :: "real list"
  assumes "sorted xs" and "k < length xs" and "xs ! k \<le> m"
  shows "Suc k \<le> length (filter (\<lambda>x. x \<le> m) xs)"
proof -
  have "\<forall>x \<in> set (take (Suc k) xs). x \<le> m"
  proof
    fix x assume "x \<in> set (take (Suc k) xs)"
    then obtain i where i: "i < Suc k" "i < length xs" and x: "x = xs ! i"
      by (auto simp: in_set_conv_nth)
    have "xs ! i \<le> xs ! k"
      using assms(1,2) i by (intro sorted_nth_mono) simp_all
    with x assms(3) show "x \<le> m" by simp
  qed
  then have "filter (\<lambda>x. x \<le> m) (take (Suc k) xs) = take (Suc k) xs"
    by (simp add: filter_id_conv)
  moreover have "filter (\<lambda>x. x \<le> m) xs =
      filter (\<lambda>x. x \<le> m) (take (Suc k) xs) @ filter (\<lambda>x. x \<le> m) (drop (Suc k) xs)"
    by (metis append_take_drop_id filter_append)
  ultimately have "length (filter (\<lambda>x. x \<le> m) xs) \<ge> length (take (Suc k) xs)"
    by simp
  then show ?thesis
    using assms(2) by simp
qed

lemma sorted_count_ge:
  fixes xs :: "real list"
  assumes "sorted xs" and "k < length xs" and "m \<le> xs ! k"
  shows "length xs - k \<le> length (filter (\<lambda>x. m \<le> x) xs)"
proof -
  have "\<forall>x \<in> set (drop k xs). m \<le> x"
  proof
    fix x assume "x \<in> set (drop k xs)"
    then obtain i where i: "i < length xs - k" and x: "x = xs ! (k + i)"
      by (auto simp: in_set_conv_nth)
    have "xs ! k \<le> xs ! (k + i)"
      using assms(1) i by (intro sorted_nth_mono) simp_all
    with x assms(3) show "m \<le> x" by simp
  qed
  then have "filter (\<lambda>x. m \<le> x) (drop k xs) = drop k xs"
    by (simp add: filter_id_conv)
  moreover have "filter (\<lambda>x. m \<le> x) xs =
      filter (\<lambda>x. m \<le> x) (take k xs) @ filter (\<lambda>x. m \<le> x) (drop k xs)"
    by (metis append_take_drop_id filter_append)
  ultimately have "length (filter (\<lambda>x. m \<le> x) xs) \<ge> length (drop k xs)"
    by simp
  then show ?thesis
    by simp
qed

lemma calculate_statistics_fields:
  assumes "readings \<noteq> []" and "V = map r_glucose_value readings"
  shows "\<exists>st. calculate_statistics readings = Inr (Some st)
     \<and> st_count st = int (length V)
     \<and> st_average st = to_double (sum_list V / real (length V))
     \<and> st_median st = middle_value V
     \<and> st_std_dev st = (if 1 < length V then to_double (sample_std_dev V) else 0)
     \<and> st_min st = Min (set V)
     \<and> st_max st = Max (set V)
     \<and> st_range st = to_double (Max (set V) - Min (set V))
     \<and> st_time_in_range st =
         to_double (to_double (real (length (filter (\<lambda>v. 70 \<le> v \<and> v \<le> 140) V))
                                 / real (length V)) * 100)
     \<and> st_estimated_a1c st =
         py_round1 (to_double (to_double (to_double (sum_list V / real (length V))
                                            + to_double 46.7) / to_double 28.7))
     \<and> st_critical_low st = int (length (filter (\<lambda>v. v < 54) V))
     \<and> st_warning_low st = int (length (filter (\<lambda>v. 54 \<le> v \<and> v < 70) V))
     \<and> st_normal st = int (length (filter (\<lambda>v. 70 \<le> v \<and> v \<le> 140) V))
     \<and> st_warning_high st = int (length (filter (\<lambda>v. 140 < v \<and> v \<le> 180) V))
     \<and> st_critical_high st = int (length (filter (\<lambda>v. v > 180) V))"
proof -
  have ne: "V \<noteq> []" using assms by simp
  have sd: "(if 1 < length V then stdev V else Inr 0) =
              Inr (if 1 < length V then to_double (sample_std_dev V) else 0)"
    by (simp add: stdev_sample)
  show ?thesis
    using assms(1)
    unfolding calculate_statistics_def assms(2) [symmetric] Let_def
      mean_nonempty [OF ne] median_nonempty [OF ne] py_min_Min [OF ne] py_max_Max [OF ne]
      sd count_if_length
    by simp
qed

lemma middle_value_is_median:
  assumes "V \<noteq> []" and "\<forall>v \<in> set V. is_double v"
  shows "is_median V (middle_value V)"
proof -
  define s where "s = sort V"
  define n where "n = length V"
  have srt: "sorted s" and len: "length s = n" and pos: "0 < n"
    using assms(1) by (simp_all add: s_def n_def)
  have dbl: "is_double (s ! k)" if "k < length s" for k
  proof -
    have "s ! k \<in> set V" using that nth_mem [OF that] by (simp add: s_def)
    with assms(2) show ?thesis by blast
  qed
  have le: "length (filter (\<lambda>v. v \<le> m) V) = length (filter (\<lambda>v. v \<le> m) s)" for m
    unfolding s_def by (rule length_filter_sort [symmetric])
  have ge: "length (filter (\<lambda>v. m \<le> v) V) = length (filter (\<lambda>v. m \<le> v) s)" for m
    unfolding s_def by (rule length_filter_sort [symmetric])
  show ?thesis
  proof (cases "odd n")
    case True
    then have mv: "middle_value V = s ! (n div 2)"
      by (simp add: middle_value_def s_def n_def Let_def)
    have k: "n div 2 < length s" using pos len by simp
    have "Suc (n div 2) \<le> length (filter (\<lambda>v. v \<le> s ! (n div 2)) s)"
      by (rule sorted_count_le [OF srt k]) simp
    moreover have "length s - n div 2 \<le> length (filter (\<lambda>v. s ! (n div 2) \<le> v) s)"
      by (rule sorted_count_ge [OF srt k]) simp
    ultimately show ?thesis
      unfolding is_median_def mv le ge using len True
      by (simp only: flip: n_def) presburger
  next
    case False
    define i where "i = n div 2"
    from False pos have n2: "n = 2 * i" and i1: "1 \<le> i"
      by (auto simp: i_def elim: evenE)
    define m where "m = to_double (to_double (s ! (i - 1) + s ! i) / 2)"
    have mv: "middle_value V = m"
      using False by (simp add: middle_value_def s_def n_def m_def i_def Let_def)
    have k1: "i - 1 < length s" and k2: "i < length s"
      using len n2 i1 by simp_all
    have "s ! (i - 1) \<le> s ! i"
      using srt k2 by (intro sorted_nth_mono) simp_all
    then have b: "s ! (i - 1) \<le> m" "m \<le> s ! i"
      unfolding m_def by (rule double_mean_between [OF dbl [OF k1] dbl [OF k2]])+
    have "Suc (i - 1) \<le> length (filter (\<lambda>v. v \<le> m) s)"
      by (rule sorted_count_le [OF srt k1 b(1)])
    moreover have "length s - i \<le> length (filter (\<lambda>v. m \<le> v) s)"
      by (rule sorted_count_ge [OF srt k2 b(2)])
    ultimately show ?thesis
      unfolding is_median_def mv le ge using len n2 i1
      by (simp only: flip: n_def) linarith
  qed
qed

text \<open>The square root of 1000 as a double, from bounds on its square.\<close>

lemma sqrt_1000_double: "to_double (sqrt 1000) = 8901020307485223 / 281474976710656"
proof -
  define r :: real where "r = sqrt 1000"
  have r2: "r\<^sup>2 = 1000" and r0: "0 \<le> r" by (simp_all add: r_def)
  have lo: "8901020307485222.5 / 281474976710656 < r"
  proof (rule ccontr)
    assume "\<not> 8901020307485222.5 / 281474976710656 < r"
    then have "r \<le> 8901020307485222.5 / 281474976710656" by simp
    then have "r\<^sup>2 \<le> (8901020307485222.5 / 281474976710656)\<^sup>2"
      using r0 by (intro power_mono) simp_all
    then show False unfolding r2 by (simp add: power2_eq_square)
  qed
  have hi: "r < 8901020307485223.5 / 281474976710656"
  proof (rule ccontr)
    assume "\<not> r < 8901020307485223.5 / 281474976710656"
    then have "8901020307485223.5 / 281474976710656 \<le> r" by simp
    then have "(8901020307485223.5 / 281474976710656)\<^sup>2 \<le> r\<^sup>2"
      by (intro power_mono) simp_all
    then show False unfolding r2 by (simp add: power2_eq_square)
  qed
  have f: "\<lfloor>r\<rfloor> = 31" using lo hi by linarith
  have r1: "1 \<le> r" using lo by simp
  have e: "exponent \<bar>r\<bar> = 4"
    using r0 r1 f by (simp add: exponent_def compute_bitlen)
  have q: "pow2 (- 48) = 1 / 281474976710656" by (simp add: pow2_def)
  define y where "y = r * 281474976710656"
  have y: "8901020307485222.5 < y" "y < 8901020307485223.5"
    using lo hi by (simp_all add: y_def field_simps)
  have "round_half_even y = 8901020307485223"
  proof -
    consider "\<lfloor>y\<rfloor> = 8901020307485222" | "\<lfloor>y\<rfloor> = 8901020307485223"
      using y by linarith
    then show ?thesis
    proof cases
      case 1
      then have "y - of_int \<lfloor>y\<rfloor> > 1 / 2" using y by simp
      then show ?thesis using 1 by (simp add: round_half_even_def Let_def)
    next
      case 2
      then have "y - of_int \<lfloor>y\<rfloor> < 1 / 2" using y by simp
      then show ?thesis using 2 by (simp add: round_half_even_def Let_def)
    qed
  qed
  moreover have "r \<noteq> 0" using r1 by simp
  ultimately show ?thesis
    unfolding r_def [symmetric] by (simp add: to_double_def Let_def e q y_def)
qed

subsection \<open>The statistics of a list of readings\<close>

lemma status_iff:
  "a_status (analyze now v) = ''CRITICAL LOW'' \<longleftrightarrow> v < 54"
  "a_status (analyze now v) = ''WARNING LOW'' \<longleftrightarrow> 54 \<le> v \<and> v < 70"
  "a_status (analyze now v) = ''NORMAL'' \<longleftrightarrow> 70 \<le> v \<and> v \<le> 140"
  "a_status (analyze now v) = ''WARNING HIGH'' \<longleftrightarrow> 140 < v \<and> v \<le> 180"
  "a_status (analyze now v) = ''CRITICAL HIGH'' \<longleftrightarrow> v > 180"
  by (simp_all add: analyze_def thresholds Let_def)

lemma buckets_partition:
  fixes V :: "real list"
  shows "length (filter (\<lambda>v. v < 54) V) + length (filter (\<lambda>v. 54 \<le> v \<and> v < 70) V)
     + length (filter (\<lambda>v. 70 \<le> v \<and> v \<le> 140) V)
     + length (filter (\<lambda>v. 140 < v \<and> v \<le> 180) V)
     + length (filter (\<lambda>v. v > 180) V) = length V"
  by (induction V) auto

lemma length_filter_value:
  "length (filter P (map r_glucose_value readings)) =
     length (filter (\<lambda>r. P (r_glucose_value r)) readings)"
  by (induction readings) simp_all

text \<open>
  Claim C2. On readings that are not empty, with \<open>V\<close> the list of their values,
  \<^const>\<open>calculate_statistics\<close> returns statistics, each number a double: the count is
  the length of \<open>V\<close>; the average is the double nearest to the sum of \<open>V\<close> divided
  by its length; the median is the middle one of the sorted values or the mean of the two
  middle ones, computed in floating point, and when the values are doubles at least half
  of them are at most it and at least half are at least it; the standard deviation is 0
  for a single value and otherwise the double nearest to the sample standard deviation;
  the minimum and the maximum are the least and the greatest value, the range is their
  difference as a double; and the time in range is the number of values from 70 to 140
  divided by the length, times 100, the division and the multiplication each rounded to a
  double.
\<close>

theorem calculate_statistics_aggregate:
  assumes "readings \<noteq> []" and "V = map r_glucose_value readings"
  shows "\<exists>st. calculate_statistics readings = Inr (Some st)
     \<and> st_count st = int (length V)
     \<and> st_average st = to_double (sum_list V / real (length V))
     \<and> st_median st = middle_value V
     \<and> ((\<forall>v \<in> set V. is_double v) \<longrightarrow> is_median V (st_median st))
     \<and> st_std_dev st = (if length V = 1 then 0 else to_double (sample_std_dev V))
     \<and> st_min st = Min (set V)
     \<and> st_max st = Max (set V)
     \<and> st_range st = to_double (Max (set V) - Min (set V))
     \<and> st_time_in_range st =
         to_double (to_double (real (length (filter (\<lambda>v. 70 \<le> v \<and> v \<le> 140) V))
                                 / real (length V)) * 100)"
proof -
  obtain st where st: "calculate_statistics readings = Inr (Some st)"
    and f: "st_count st = int (length V)"
      "st_average st = to_double (sum_list V / real (length V))"
      "st_median st = middle_value V"
      "st_std_dev st = (if 1 < length V then to_double (sample_std_dev V) else 0)"
      "st_min st = Min (set V)"
      "st_max st = Max (set V)"
      "st_range st = to_double (Max (set V) - Min (set V))"
      "st_time_in_range st =
         to_double (to_double (real (length (filter (\<lambda>v. 70 \<le> v \<and> v \<le> 140) V))
                                 / real (length V)) * 100)"
    using calculate_statistics_fields [OF assms] by blast
  have ne: "V \<noteq> []" using assms by simp
  then have "length V = 1 \<or> 1 < length V"
    by (cases V) auto
  then have sd: "st_std_dev st = (if length V = 1 then 0 else to_double (sample_std_dev V))"
    using f(4) by auto
  have md: "(\<forall>v \<in> set V. is_double v) \<longrightarrow> is_median V (st_median st)"
    unfolding f(3) using middle_value_is_median [OF ne] by blast
  show ?thesis
    using st f(1,2,3,5,6,7,8) sd md by blast
qed

lemma stats_example_values:
  "stats_example \<noteq> []"
  "map r_glucose_value stats_example = [100, 120, 140, 160, 180]"
  by (simp_all add: stats_example_def example_reading_def)

text \<open>
  On the values 100, 120, 140, 160 and 180: count 5, average 140, median 140, minimum
  100, maximum 180, range 80, time in range 60, and the standard deviation
  \<^verbatim>\<open>31.622776601683793\<close>. On the doubles \<^verbatim>\<open>90.1\<close>, \<^verbatim>\<open>150.2\<close> and
  \<^verbatim>\<open>200.4\<close> the operations round: the range is \<^verbatim>\<open>110.30000000000001\<close> and the
  time in range \<^verbatim>\<open>33.33333333333333\<close>.
\<close>

lemma float_example_values:
  "float_example \<noteq> []"
  "map r_glucose_value float_example =
     [3170111925203763 / 35184372088832, 2642346343871283 / 17592186044416,
      7050948166601933 / 35184372088832]"
  by (simp_all add: float_example_def example_reading_def double_eval)

theorem calculate_statistics_aggregate_witness:
  "stats_example \<noteq> []
   \<and> [100, 120, 140, 160, 180] = map r_glucose_value stats_example
   \<and> list_all is_double [100, 120, 140, 160, 180]
   \<and> (\<exists>st. calculate_statistics stats_example = Inr (Some st)
         \<and> st_count st = 5 \<and> st_average st = 140 \<and> st_median st = 140
         \<and> is_median [100, 120, 140, 160, 180] (st_median st)
         \<and> st_std_dev st = 8901020307485223 / 281474976710656
         \<and> st_min st = 100 \<and> st_max st = 180 \<and> st_range st = 80
         \<and> st_time_in_range st = 60)
   \<and> float_example \<noteq> []
   \<and> [to_double 90.1, to_double 150.2, to_double 200.4] = map r_glucose_value float_example
   \<and> (\<exists>st. calculate_statistics float_example = Inr (Some st)
         \<and> st_count st = 3 \<and> st_average st = to_double 146.9
         \<and> st_median st = to_double 150.2
         \<and> st_min st = to_double 90.1 \<and> st_max st = to_double 200.4
         \<and> st_range st = 1940418120699085 / 17592186044416
         \<and> st_time_in_range st = 2345624805922133 / 70368744177664)"
proof -
  define V :: "real list" where "V = [100, 120, 140, 160, 180]"
  have h1: "stats_example \<noteq> []" and h2: "V = map r_glucose_value stats_example"
    by (simp_all add: stats_example_values V_def)
  have h3: "list_all is_double V"
    by (simp add: V_def is_double_def double_eval)
  then have h3': "\<forall>v \<in> set V. is_double v"
    by (simp add: list_all_iff)
  obtain st where st: "calculate_statistics stats_example = Inr (Some st)"
    and f: "st_count st = int (length V)"
      "st_average st = to_double (sum_list V / real (length V))"
      "st_median st = middle_value V"
      "st_min st = Min (set V)"
      "st_max st = Max (set V)"
      "st_range st = to_double (Max (set V) - Min (set V))"
      "st_time_in_range st =
         to_double (to_double (real (length (filter (\<lambda>v. 70 \<le> v \<and> v \<le> 140) V))
                                 / real (length V)) * 100)"
    and m: "(\<forall>v \<in> set V. is_double v) \<longrightarrow> is_median V (st_median st)"
    and s: "st_std_dev st = (if length V = 1 then 0 else to_double (sample_std_dev V))"
    using calculate_statistics_aggregate [OF h1 h2] by blast
  have "sample_std_dev V = sqrt 1000"
    by (simp add: sample_std_dev_def V_def Let_def)
  with s have a1: "st_std_dev st = 8901020307485223 / 281474976710656"
    by (simp add: V_def sqrt_1000_double)
  have a2: "st_count st = 5" "st_average st = 140" "st_time_in_range st = 60"
    unfolding f V_def by (simp_all add: double_eval)
  have a3: "st_median st = 140"
    unfolding f V_def by (simp add: middle_value_def)
  have a4: "st_min st = 100" "st_max st = 180" "st_range st = 80"
    unfolding f V_def by (simp_all add: double_eval)
  have a5: "is_median V (st_median st)"
    using m h3' by blast
  have first: "\<exists>st. calculate_statistics stats_example = Inr (Some st)
         \<and> st_count st = 5 \<and> st_average st = 140 \<and> st_median st = 140
         \<and> is_median [100, 120, 140, 160, 180] (st_median st)
         \<and> st_std_dev st = 8901020307485223 / 281474976710656
         \<and> st_min st = 100 \<and> st_max st = 180 \<and> st_range st = 80
         \<and> st_time_in_range st = 60"
    using st a1 a2 a3 a4 a5 unfolding V_def by blast
  define W :: "real list" where
    "W = [3170111925203763 / 35184372088832, 2642346343871283 / 17592186044416,
          7050948166601933 / 35184372088832]"
  have w: "[to_double 90.1, to_double 150.2, to_double 200.4] = W"
    by (simp add: W_def double_eval)
  have k1: "float_example \<noteq> []" and k2: "W = map r_glucose_value float_example"
    by (simp_all add: float_example_values W_def)
  obtain st' where st': "calculate_statistics float_example = Inr (Some st')"
    and g: "st_count st' = int (length W)"
      "st_average st' = to_double (sum_list W / real (length W))"
      "st_median st' = middle_value W"
      "st_min st' = Min (set W)"
      "st_max st' = Max (set W)"
      "st_range st' = to_double (Max (set W) - Min (set W))"
      "st_time_in_range st' =
         to_double (to_double (real (length (filter (\<lambda>v. 70 \<le> v \<and> v \<le> 140) W))
                                 / real (length W)) * 100)"
    using calculate_statistics_aggregate [OF k1 k2] by blast
  have b1: "st_count st' = 3" unfolding g W_def by simp
  have b2: "st_average st' = to_double 146.9"
    unfolding g W_def by (simp add: double_eval)
  have b3: "st_median st' = to_double 150.2"
    unfolding g W_def by (simp add: middle_value_def double_eval)
  have b4: "st_min st' = to_double 90.1" "st_max st' = to_double 200.4"
    unfolding g W_def by (simp_all add: double_eval)
  have b5: "st_range st' = 1940418120699085 / 17592186044416"
    unfolding g W_def by (simp add: double_eval)
  have b6: "st_time_in_range st' = 2345624805922133 / 70368744177664"
    unfolding g W_def by (simp add: double_eval)
  have second: "\<exists>st. calculate_statistics float_example = Inr (Some st)
         \<and> st_count st = 3 \<and> st_average st = to_double 146.9
         \<and> st_median st = to_double 150.2
         \<and> st_min st = to_double 90.1 \<and> st_max st = to_double 200.4
         \<and> st_range st = 1940418120699085 / 17592186044416
         \<and> st_time_in_range st = 2345624805922133 / 70368744177664"
    using st' b1 b2 b3 b4 b5 b6 by blast
  show ?thesis
    using h1 h2 h3 first k1 k2 second unfolding V_def w by blast
qed

text \<open>
  Claim C8. On readings that are not empty, each of the five counters of the statistics is
  the number of readings whose value \<^const>\<open>analyze\<close> gives the status of that
  counter, so the five counters add up to the count; and the status of a value \<open>v\<close> is
  \<open>CRITICAL LOW\<close> exactly below 54, \<open>WARNING LOW\<close> exactly from 54 to below 70,
  \<open>NORMAL\<close> exactly from 70 to 140, both ends included, \<open>WARNING HIGH\<close> exactly
  above 140 up to 180, and \<open>CRITICAL HIGH\<close> exactly above 180.
\<close>

theorem buckets_match_classification:
  assumes "readings \<noteq> []"
  shows "\<exists>st. calculate_statistics readings = Inr (Some st)
     \<and> st_critical_low st =
         int (length (filter (\<lambda>r. a_status (analyze now (r_glucose_value r)) = ''CRITICAL LOW'')
                readings))
     \<and> st_warning_low st =
         int (length (filter (\<lambda>r. a_status (analyze now (r_glucose_value r)) = ''WARNING LOW'')
                readings))
     \<and> st_normal st =
         int (length (filter (\<lambda>r. a_status (analyze now (r_glucose_value r)) = ''NORMAL'')
                readings))
     \<and> st_warning_high st =
         int (length (filter (\<lambda>r. a_status (analyze now (r_glucose_value r)) = ''WARNING HIGH'')
                readings))
     \<and> st_critical_high st =
         int (length (filter (\<lambda>r. a_status (analyze now (r_glucose_value r)) = ''CRITICAL HIGH'')
                readings))
     \<and> st_critical_low st + st_warning_low st + st_normal st + st_warning_high st
         + st_critical_high st = st_count st
     \<and> (a_status (analyze now v) = ''CRITICAL LOW'' \<longleftrightarrow> v < 54)
     \<and> (a_status (analyze now v) = ''WARNING LOW'' \<longleftrightarrow> 54 \<le> v \<and> v < 70)
     \<and> (a_status (analyze now v) = ''NORMAL'' \<longleftrightarrow> 70 \<le> v \<and> v \<le> 140)
     \<and> (a_status (analyze now v) = ''WARNING HIGH'' \<longleftrightarrow> 140 < v \<and> v \<le> 180)
     \<and> (a_status (analyze now v) = ''CRITICAL HIGH'' \<longleftrightarrow> v > 180)"
proof -
  define V where "V = map r_glucose_value readings"
  obtain st where st: "calculate_statistics readings = Inr (Some st)"
    and c: "st_count st = int (length V)"
    and b: "st_critical_low st = int (length (filter (\<lambda>v. v < 54) V))"
      "st_warning_low st = int (length (filter (\<lambda>v. 54 \<le> v \<and> v < 70) V))"
      "st_normal st = int (length (filter (\<lambda>v. 70 \<le> v \<and> v \<le> 140) V))"
      "st_warning_high st = int (length (filter (\<lambda>v. 140 < v \<and> v \<le> 180) V))"
      "st_critical_high st = int (length (filter (\<lambda>v. v > 180) V))"
    using calculate_statistics_fields [OF assms V_def] by blast
  have total: "st_critical_low st + st_warning_low st + st_normal st + st_warning_high st
         + st_critical_high st = st_count st"
    unfolding b c using buckets_partition [of V] by linarith
  have b': "st_critical_low st =
         int (length (filter (\<lambda>r. a_status (analyze now (r_glucose_value r)) = ''CRITICAL LOW'')
                readings))"
      "st_warning_low st =
         int (length (filter (\<lambda>r. a_status (analyze now (r_glucose_value r)) = ''WARNING LOW'')
                readings))"
      "st_normal st =
         int (length (filter (\<lambda>r. a_status (analyze now (r_glucose_value r)) = ''NORMAL'')
                readings))"
      "st_warning_high st =
         int (length (filter (\<lambda>r. a_status (analyze now (r_glucose_value r)) = ''WARNING HIGH'')
                readings))"
      "st_critical_high st =
         int (length (filter (\<lambda>r. a_status (analyze now (r_glucose_value r)) = ''CRITICAL HIGH'')
                readings))"
    unfolding b V_def length_filter_value status_iff by (rule refl)+
  show ?thesis
    using st b' total status_iff [of now v] by blast
qed

text \<open>The values 95, 110, 150, 200 and 60 fill the counters with 0, 1, 2, 1 and 1.\<close>

theorem buckets_match_classification_witness:
  "t_readings example_db \<noteq> []
   \<and> map r_glucose_value (t_readings example_db) = [95, 110, 150, 200, 60]
   \<and> (\<exists>st. calculate_statistics (t_readings example_db) = Inr (Some st)
         \<and> st_critical_low st = 0 \<and> st_warning_low st = 1 \<and> st_normal st = 2
         \<and> st_warning_high st = 1 \<and> st_critical_high st = 1 \<and> st_count st = 5)"
proof -
  have h: "t_readings example_db \<noteq> []"
    and v: "map r_glucose_value (t_readings example_db) = [95, 110, 150, 200, 60]"
    by (simp_all add: example_db_def)
  obtain st where st: "calculate_statistics (t_readings example_db) = Inr (Some st)"
    and b: "st_critical_low st =
         int (length (filter (\<lambda>r. a_status (analyze example_now (r_glucose_value r))
                                    = ''CRITICAL LOW'') (t_readings example_db)))"
      "st_warning_low st =
         int (length (filter (\<lambda>r. a_status (analyze example_now (r_glucose_value r))
                                    = ''WARNING LOW'') (t_readings example_db)))"
      "st_normal st =
         int (length (filter (\<lambda>r. a_status (analyze example_now (r_glucose_value r))
                                    = ''NORMAL'') (t_readings example_db)))"
      "st_warning_high st =
         int (length (filter (\<lambda>r. a_status (analyze example_now (r_glucose_value r))
                                    = ''WARNING HIGH'') (t_readings example_db)))"
      "st_critical_high st =
         int (length (filter (\<lambda>r. a_status (analyze example_now (r_glucose_value r))
                                    = ''CRITICAL HIGH'') (t_readings example_db)))"
    and t: "st_critical_low st + st_warning_low st + st_normal st + st_warning_high st
         + st_critical_high st = st_count st"
    using buckets_match_classification [OF h, of example_now 0] by blast
  have n: "st_critical_low st = 0" "st_warning_low st = 1" "st_normal st = 2"
      "st_warning_high st = 1" "st_critical_high st = 1"
    unfolding b status_iff by (simp_all add: example_db_def)
  with t have "st_count st = 5" by simp
  with st n h v show ?thesis by blast
qed

text \<open>
  Claim C6, as amended. On readings that are not empty, let \<open>x\<close> be the float that
  the code rounds: the average plus \<^verbatim>\<open>46.7\<close>, divided by \<^verbatim>\<open>28.7\<close>, in
  floating point. The estimated A1C is the double nearest to a multiple of a tenth that
  is nearest to \<open>x\<close>, and where \<open>x\<close> lies halfway between two tenths it is the
  even multiple: halves go to the even neighbour, not to the upper one.
\<close>

theorem estimated_a1c_nearest_tenth:
  assumes "readings \<noteq> []" and "V = map r_glucose_value readings"
    and "x = to_double (to_double (to_double (sum_list V / real (length V)) + to_double 46.7)
                          / to_double 28.7)"
  shows "\<exists>st k. calculate_statistics readings = Inr (Some st)
     \<and> st_average st = to_double (sum_list V / real (length V))
     \<and> st_estimated_a1c st = to_double (of_int k / 10)
     \<and> \<bar>of_int k / 10 - x\<bar> \<le> 1 / 20
     \<and> (\<bar>of_int k / 10 - x\<bar> = 1 / 20 \<longrightarrow> even k)"
proof -
  obtain st where st: "calculate_statistics readings = Inr (Some st)"
    and v: "st_average st = to_double (sum_list V / real (length V))"
    and a: "st_estimated_a1c st = py_round1 x"
    using calculate_statistics_fields [OF assms(1,2)] unfolding assms(3) by blast
  obtain k where "py_round1 x = to_double (of_int k / 10)"
    and "\<bar>of_int k / 10 - x\<bar> \<le> 1 / 20"
    and "\<bar>of_int k / 10 - x\<bar> = 1 / 20 \<longrightarrow> even k"
    using py_round1_nearest [of x] by blast
  with st v a show ?thesis by auto
qed

text \<open>
  The average 140 gives 6.5. The single value 161.375 gives the float 7.25, halfway
  between 7.2 and 7.3, and the estimate is 7.2. The single value 591.875 gives a float
  just above 22.25, and the estimate is 22.3.
\<close>

lemma tie_example_values:
  "tie_example \<noteq> []"
  "map r_glucose_value tie_example = [161.375]"
  by (simp_all add: tie_example_def example_reading_def)

lemma drift_example_values:
  "drift_example \<noteq> []"
  "map r_glucose_value drift_example = [591.875]"
  by (simp_all add: drift_example_def example_reading_def)

lemma example_quotients:
  "to_double (to_double (to_double (sum_list [100, 120, 140, 160, 180]
       / real (length [100, 120, 140, 160, 180 :: real])) + to_double 46.7) / to_double 28.7)
     = 3662116944381845 / 562949953421312"
  "to_double (to_double (to_double (sum_list [161.375] / real (length [161.375 :: real]))
       + to_double 46.7) / to_double 28.7) = 29 / 4"
  "to_double (to_double (to_double (sum_list [591.875] / real (length [591.875 :: real]))
       + to_double 46.7) / to_double 28.7) = 6262818231812097 / 281474976710656"
  by (simp_all add: double_eval)

theorem estimated_a1c_nearest_tenth_witness:
  "stats_example \<noteq> []
   \<and> [100, 120, 140, 160, 180] = map r_glucose_value stats_example
   \<and> (\<exists>st. calculate_statistics stats_example = Inr (Some st)
         \<and> st_average st = 140 \<and> st_estimated_a1c st = 6.5)
   \<and> tie_example \<noteq> []
   \<and> [161.375] = map r_glucose_value tie_example
   \<and> (\<exists>st. calculate_statistics tie_example = Inr (Some st)
         \<and> st_estimated_a1c st = to_double 7.2)
   \<and> drift_example \<noteq> []
   \<and> [591.875] = map r_glucose_value drift_example
   \<and> (\<exists>st. calculate_statistics drift_example = Inr (Some st)
         \<and> st_estimated_a1c st = to_double 22.3)"
proof -
  have h1: "stats_example \<noteq> []"
    and h2: "[100, 120, 140, 160, 180] = map r_glucose_value stats_example"
    by (simp_all add: stats_example_values)
  have h3: "tie_example \<noteq> []" and h4: "[161.375] = map r_glucose_value tie_example"
    by (simp_all add: tie_example_values)
  have h5: "drift_example \<noteq> []" and h6: "[591.875] = map r_glucose_value drift_example"
    by (simp_all add: drift_example_values)
  obtain st k where st: "calculate_statistics stats_example = Inr (Some st)"
    and v: "st_average st
              = to_double (sum_list [100, 120, 140, 160, 180]
                  / real (length [100, 120, 140, 160, 180 :: real]))"
    and k: "st_estimated_a1c st = to_double (of_int k / 10)"
    and n: "\<bar>real_of_int k / 10 - 3662116944381845 / 562949953421312\<bar> \<le> 1 / 20"
    using estimated_a1c_nearest_tenth [OF h1 h2 example_quotients(1) [symmetric]] by blast
  from n have "64 < real_of_int k" "real_of_int k < 66"
    by linarith+
  then have "k = 65" by linarith
  with k have a1: "st_estimated_a1c st = 6.5" by (simp add: double_eval)
  from v have a0: "st_average st = 140" by (simp add: double_eval)
  obtain st' k' where st': "calculate_statistics tie_example = Inr (Some st')"
    and k': "st_estimated_a1c st' = to_double (of_int k' / 10)"
    and n': "\<bar>real_of_int k' / 10 - 29 / 4\<bar> \<le> 1 / 20"
    and e': "\<bar>real_of_int k' / 10 - 29 / 4\<bar> = 1 / 20 \<longrightarrow> even k'"
    using estimated_a1c_nearest_tenth [OF h3 h4 example_quotients(2) [symmetric]] by blast
  from n' have "72 \<le> real_of_int k'" "real_of_int k' \<le> 73"
    by linarith+
  then have "k' = 72 \<or> k' = 73" by linarith
  moreover have "k' \<noteq> 73"
  proof
    assume "k' = 73"
    with e' show False by simp
  qed
  ultimately have "k' = 72" by simp
  with k' have a2: "st_estimated_a1c st' = to_double 7.2" by simp
  obtain st'' k'' where st'': "calculate_statistics drift_example = Inr (Some st'')"
    and k'': "st_estimated_a1c st'' = to_double (of_int k'' / 10)"
    and n'': "\<bar>real_of_int k'' / 10 - 6262818231812097 / 281474976710656\<bar> \<le> 1 / 20"
    using estimated_a1c_nearest_tenth [OF h5 h6 example_quotients(3) [symmetric]] by blast
  from n'' have "222 < real_of_int k''" "real_of_int k'' < 224"
    by linarith+
  then have "k'' = 223" by linarith
  with k'' have a3: "st_estimated_a1c st'' = to_double 22.3" by simp
  show ?thesis
    using h1 h2 h3 h4 h5 h6 st a0 a1 st' a2 st'' a3 by blast
qed

text \<open>
  Claim C6, as stated, fails on the single reading 161.375: the float that is rounded is
  7.25 exactly, rounding the half up gives 7.3, and the code gives the double 7.2.
\<close>

theorem estimated_a1c_not_half_up:
  "estimated_a1c_of tie_example = Some (to_double 7.2)
   \<and> round_half_up1 ((161.375 + 46.7) / 28.7) = 7.3
   \<and> round_half_up1 (to_double (to_double (161.375 + to_double 46.7) / to_double 28.7)) = 7.3
   \<and> to_double 7.2 < 7.25 \<and> 7.25 < to_double 7.3"
proof -
  obtain st where st: "calculate_statistics tie_example = Inr (Some st)"
    and a: "st_estimated_a1c st =
              py_round1 (to_double (to_double (to_double (sum_list [161.375]
                  / real (length [161.375 :: real])) + to_double 46.7) / to_double 28.7))"
    using calculate_statistics_fields [OF tie_example_values(1) tie_example_values(2) [symmetric]]
    by blast
  have "st_estimated_a1c st = to_double 7.2"
    unfolding a example_quotients(2) by (simp add: py_round1_def round_half_even_def Let_def)
  with st have "estimated_a1c_of tie_example = Some (to_double 7.2)"
    by (simp add: estimated_a1c_of_def)
  moreover have "round_half_up1 ((161.375 + 46.7) / 28.7) = 7.3"
    by (simp add: round_half_up1_def)
  moreover have q: "to_double (to_double (161.375 + to_double 46.7) / to_double 28.7) = 29 / 4"
    by (simp add: double_eval)
  have "round_half_up1 (to_double (to_double (161.375 + to_double 46.7) / to_double 28.7))
      = 7.3"
    unfolding q by (simp add: round_half_up1_def)
  moreover have "to_double 7.2 < 7.25" "7.25 < to_double 7.3"
    by (simp_all add: double_eval)
  ultimately show ?thesis by simp
qed

section \<open>The store\<close>

subsection \<open>Patients\<close>

lemma find_append_fresh:
  "\<forall>x \<in> set xs. \<not> P x \<Longrightarrow> P y \<Longrightarrow> find P (xs @ [y]) = Some y"
  by (induction xs) simp_all

lemma alice_db_eq:
  "alice_db =
     \<lparr>t_patients =
        [\<lparr>p_id = 1, p_name = ''Alice'', p_age = 30, p_diabetes_type = ''Type 1'',
          p_target_min = 70, p_target_max = 140, p_created_date = ''2024-03-15 10:30:00''\<rparr>],
      t_readings = [], t_goals = [], seq_patients = 1, seq_readings = 0, seq_goals = 0\<rparr>"
  by code_simp

text \<open>
  Claim C4. When a patient of the name is in the store, \<^const>\<open>add_patient\<close> returns
  \<^verbatim>\<open>None\<close>, a value and no exception, and the store is as it was. When no patient has
  the name, it returns an identifier, the table of patients has one more row at its end,
  which is the row found under the name, carries that identifier and the name, age and
  type given, and the readings and goals are as they were.
\<close>

theorem add_patient_unique_name:
  "(name \<in> set (map p_name (get_patients db)) \<longrightarrow>
      add_patient db now name age diabetes_type = (None, db))
   \<and> (name \<notin> set (map p_name (get_patients db)) \<longrightarrow>
      (\<exists>patient_id db' row.
          add_patient db now name age diabetes_type = (Some patient_id, db')
          \<and> get_patients db' = get_patients db @ [row]
          \<and> get_patient_by_name db' name = Some row
          \<and> p_id row = patient_id \<and> p_name row = name \<and> p_age row = age
          \<and> p_diabetes_type row = diabetes_type
          \<and> t_readings db' = t_readings db \<and> t_goals db' = t_goals db))"
proof (intro conjI impI)
  assume "name \<in> set (map p_name (get_patients db))"
  then show "add_patient db now name age diabetes_type = (None, db)"
    by (simp add: add_patient_def get_patients_def)
next
  assume fresh: "name \<notin> set (map p_name (get_patients db))"
  let ?row = "\<lparr>p_id = seq_patients db + 1, p_name = name, p_age = age,
               p_diabetes_type = diabetes_type, p_target_min = 70, p_target_max = 140,
               p_created_date = strftime_ymd_hms now\<rparr>"
  let ?db' = "db\<lparr>t_patients := t_patients db @ [?row], seq_patients := seq_patients db + 1\<rparr>"
  have a: "add_patient db now name age diabetes_type = (Some (seq_patients db + 1), ?db')"
    using fresh by (simp add: add_patient_def get_patients_def Let_def)
  have "\<forall>p \<in> set (t_patients db). \<not> p_name p = name"
    using fresh by (auto simp: get_patients_def)
  then have f: "get_patient_by_name ?db' name = Some ?row"
    by (simp add: get_patient_by_name_def find_append_fresh)
  have g: "get_patients ?db' = get_patients db @ [?row]"
    by (simp add: get_patients_def)
  show "\<exists>patient_id db' row.
          add_patient db now name age diabetes_type = (Some patient_id, db')
          \<and> get_patients db' = get_patients db @ [row]
          \<and> get_patient_by_name db' name = Some row
          \<and> p_id row = patient_id \<and> p_name row = name \<and> p_age row = age
          \<and> p_diabetes_type row = diabetes_type
          \<and> t_readings db' = t_readings db \<and> t_goals db' = t_goals db"
    using a f g by (intro exI [of _ "seq_patients db + 1"] exI [of _ ?db'] exI [of _ ?row]) simp
qed

text \<open>
  A second Alice, of age 40 and type 2, is refused and the first one keeps her age of 30;
  Bob is new and gets the identifier 2, under which his row is found.
\<close>

theorem add_patient_unique_name_witness:
  "''Alice'' \<in> set (map p_name (get_patients alice_db))
   \<and> add_patient alice_db example_now ''Alice'' 40 ''Type 2'' = (None, alice_db)
   \<and> map_option p_age (get_patient_by_name alice_db ''Alice'') = Some 30
   \<and> ''Bob'' \<notin> set (map p_name (get_patients alice_db))
   \<and> fst (add_patient alice_db example_now ''Bob'' 52 ''Type 2'') = Some 2
   \<and> map_option p_id
        (get_patient_by_name (snd (add_patient alice_db example_now ''Bob'' 52 ''Type 2''))
           ''Bob'')
       = Some 2"
proof -
  have h1: "''Alice'' \<in> set (map p_name (get_patients alice_db))"
    by (simp add: alice_db_eq get_patients_def)
  have h2: "''Bob'' \<notin> set (map p_name (get_patients alice_db))"
    by (simp add: alice_db_eq get_patients_def)
  have c1: "add_patient alice_db example_now ''Alice'' 40 ''Type 2'' = (None, alice_db)"
    using add_patient_unique_name [of "''Alice''" alice_db example_now 40 "''Type 2''"] h1
    by blast
  have c2: "map_option p_age (get_patient_by_name alice_db ''Alice'') = Some 30"
    by (simp add: alice_db_eq get_patient_by_name_def)
  obtain patient_id db' row where
    a: "add_patient alice_db example_now ''Bob'' 52 ''Type 2'' = (Some patient_id, db')"
    and f: "get_patient_by_name db' ''Bob'' = Some row" and i: "p_id row = patient_id"
    using add_patient_unique_name [of "''Bob''" alice_db example_now 52 "''Type 2''"] h2
    by blast
  have "fst (add_patient alice_db example_now ''Bob'' 52 ''Type 2'') = Some 2"
    by (simp add: add_patient_def alice_db_eq Let_def)
  with a have "patient_id = 2" by simp
  with a f i h1 h2 c1 c2 show ?thesis by simp
qed

subsection \<open>Readings\<close>

lemma add_reading_appends:
  "add_reading db patient_id glucose_value status condition timestamp =
     Inr (db\<lparr>t_readings := t_readings db @
                [\<lparr>r_id = seq_readings db + 1, r_patient_id = patient_id,
                  r_glucose_value = glucose_value, r_status = status,
                  r_condition = condition, r_timestamp = timestamp\<rparr>],
             seq_readings := seq_readings db + 1\<rparr>)"
  by (simp add: add_reading_def foreign_keys_def Let_def)

text \<open>
  Claim C3. The claim asks that a reading for a patient who is not in the store is
  refused with an error of referential integrity and that nothing is stored. The code
  does otherwise: in a new store, which has no patient, \<^const>\<open>add_reading\<close> for the
  patient 999 returns without an error and the table of readings holds the row.
\<close>

theorem add_reading_unknown_patient:
  "get_patients (init_database None) = []
   \<and> add_reading (init_database None) 999 120 ''NORMAL'' ''Fasting'' ''2024-03-15 10:30:00'' =
       Inr \<lparr>t_patients = [],
            t_readings = [\<lparr>r_id = 1, r_patient_id = 999, r_glucose_value = 120,
                           r_status = ''NORMAL'', r_condition = ''Fasting'',
                           r_timestamp = ''2024-03-15 10:30:00''\<rparr>],
            t_goals = [], seq_patients = 0, seq_readings = 1, seq_goals = 0\<rparr>"
  by (simp add: add_reading_appends get_patients_def init_database_def)

lemma sorted_desc_order_by:
  "sorted_wrt (\<lambda>a b. r_timestamp b \<le> r_timestamp a) (order_by_timestamp_desc rows)"
proof -
  have "sorted (map r_timestamp (sort_key r_timestamp (rev rows)))"
    by (rule sorted_sort_key)
  then have "sorted_wrt (\<lambda>a b. r_timestamp a \<le> r_timestamp b)
               (sort_key r_timestamp (rev rows))"
    by (simp add: sorted_map)
  then show ?thesis
    unfolding order_by_timestamp_desc_def by (simp add: sorted_wrt_rev)
qed

lemma mset_order_by: "mset (order_by_timestamp_desc rows) = mset rows"
  by (simp add: order_by_timestamp_desc_def)

lemma strftime_ymd_time_of_day:
  "strftime_ymd (t\<lparr>dt_hour := h, dt_minute := mi, dt_second := s\<rparr>) = strftime_ymd t"
  by (simp add: strftime_ymd_def)

lemma minus_days_time_of_day:
  "minus_days (now\<lparr>dt_hour := h, dt_minute := mi, dt_second := s\<rparr>) days =
     map_sum id (\<lambda>t. t\<lparr>dt_hour := h, dt_minute := mi, dt_second := s\<rparr>)
       (minus_days now days)"
  by (simp add: minus_days_def toordinal_def Let_def split: prod.splits)

lemma minus_days_in_range:
  assumes "0 < days" "days < toordinal now" "toordinal now \<le> MAXORDINAL"
  shows "\<exists>t. minus_days now days = Inr t"
proof -
  have "\<bar>days\<bar> \<le> 999999999" using assms by (simp add: MAXORDINAL_def)
  moreover have "0 < toordinal now - days" "toordinal now - days \<le> MAXORDINAL"
    using assms by simp_all
  ultimately show ?thesis
    by (simp add: minus_days_def Let_def split: prod.splits)
qed

lemma example_cutoff:
  "minus_days example_now 30 = Inr (example_now\<lparr>dt_month := 2, dt_day := 14\<rparr>)"
  "strftime_ymd (example_now\<lparr>dt_month := 2, dt_day := 14\<rparr>) = ''2024-02-14''"
  by code_simp+

text \<open>
  Claim C10. A window of 0 days is no window: \<^const>\<open>get_readings\<close> returns what it
  returns when the argument is left out, which is all the readings of the patient by
  descending timestamp.
\<close>

theorem get_readings_zero_days:
  "get_readings db now patient_id (Some 0) = get_readings db now patient_id None
   \<and> (\<exists>rows. get_readings db now patient_id (Some 0) = Inr rows
         \<and> mset rows = mset (filter (\<lambda>r. r_patient_id r = patient_id) (t_readings db))
         \<and> sorted_wrt (\<lambda>a b. r_timestamp b \<le> r_timestamp a) rows)"
  by (simp add: get_readings_def mset_order_by sorted_desc_order_by)

theorem get_readings_zero_days_witness:
  "get_readings example_db example_now 1 (Some 0) = get_readings example_db example_now 1 None
   \<and> get_readings example_db example_now 1 None =
        Inr [t_readings example_db ! 4, t_readings example_db ! 2,
             t_readings example_db ! 1, t_readings example_db ! 0]"
proof -
  have "get_readings example_db example_now 1 None =
        Inr [t_readings example_db ! 4, t_readings example_db ! 2,
             t_readings example_db ! 1, t_readings example_db ! 0]"
    by code_simp
  then show ?thesis
    using get_readings_zero_days [of example_db example_now 1] by simp
qed

text \<open>
  Claim C5, as amended. For a window of \<open>days\<close> days, \<open>days\<close> positive and smaller
  than the number of the day of \<open>now\<close> counted from the first day of the year 1, the
  date \<open>days\<close> days before \<open>now\<close> exists, and \<^const>\<open>get_readings\<close> returns
  exactly the readings of the patient whose timestamp is, as a string, at least that
  date written as year-month-day, by descending timestamp. The time of day of \<open>now\<close>
  has no part in it: at any other time of that day the same rows are returned.
\<close>

theorem get_readings_window:
  assumes "0 < days" and "days < toordinal now" and "toordinal now \<le> MAXORDINAL"
  shows "\<exists>t rows. minus_days now days = Inr t
           \<and> get_readings db now patient_id (Some days) = Inr rows
           \<and> mset rows =
               mset (filter (\<lambda>r. r_patient_id r = patient_id \<and> strftime_ymd t \<le> r_timestamp r)
                      (t_readings db))
           \<and> sorted_wrt (\<lambda>a b. r_timestamp b \<le> r_timestamp a) rows
           \<and> get_readings db (now\<lparr>dt_hour := h, dt_minute := mi, dt_second := s\<rparr>)
                 patient_id (Some days) = Inr rows"
proof -
  obtain t where t: "minus_days now days = Inr t"
    using minus_days_in_range [OF assms] by blast
  let ?rows = "order_by_timestamp_desc
                 (filter (\<lambda>r. r_patient_id r = patient_id \<and> strftime_ymd t \<le> r_timestamp r)
                    (t_readings db))"
  have nz: "days \<noteq> 0" using assms(1) by simp
  have g: "get_readings db now patient_id (Some days) = Inr ?rows"
    using t nz by (simp add: get_readings_def)
  have g': "get_readings db (now\<lparr>dt_hour := h, dt_minute := mi, dt_second := s\<rparr>)
              patient_id (Some days) = Inr ?rows"
    using t nz by (simp add: get_readings_def minus_days_time_of_day strftime_ymd_time_of_day)
  show ?thesis
    using t g g' mset_order_by sorted_desc_order_by by blast
qed

text \<open>
  A window of 30 days on the 15th of March 2024: the cutoff is \<open>2024-02-14\<close>, and the
  reading of the 14th of February at 06:00 is inside the window.
\<close>

theorem get_readings_window_witness:
  "(0::int) < 30 \<and> 30 < toordinal example_now \<and> toordinal example_now \<le> MAXORDINAL
   \<and> (\<exists>rows. get_readings example_db example_now 1 (Some 30) = Inr rows
         \<and> mset rows =
             {#t_readings example_db ! 1, t_readings example_db ! 2, t_readings example_db ! 4#}
         \<and> sorted_wrt (\<lambda>a b. r_timestamp b \<le> r_timestamp a) rows
         \<and> get_readings example_db (example_now\<lparr>dt_hour := 0, dt_minute := 0, dt_second := 0\<rparr>)
              1 (Some 30) = Inr rows)"
proof -
  have h1: "(0::int) < 30" by simp
  have h2: "30 < toordinal example_now" by code_simp
  have h3: "toordinal example_now \<le> MAXORDINAL" by code_simp
  obtain t rows where t: "minus_days example_now 30 = Inr t"
    and g: "get_readings example_db example_now 1 (Some 30) = Inr rows"
    and ms: "mset rows =
               mset (filter (\<lambda>r. r_patient_id r = 1 \<and> strftime_ymd t \<le> r_timestamp r)
                      (t_readings example_db))"
    and so: "sorted_wrt (\<lambda>a b. r_timestamp b \<le> r_timestamp a) rows"
    and g0: "get_readings example_db (example_now\<lparr>dt_hour := 0, dt_minute := 0, dt_second := 0\<rparr>)
               1 (Some 30) = Inr rows"
    using get_readings_window [OF h1 h2 h3, of example_db 1 0 0 0] by blast
  from t have c: "strftime_ymd t = ''2024-02-14''"
    using example_cutoff by simp
  have "filter (\<lambda>r. r_patient_id r = 1 \<and> ''2024-02-14'' \<le> r_timestamp r) (t_readings example_db)
          = [t_readings example_db ! 1, t_readings example_db ! 2, t_readings example_db ! 4]"
    by code_simp
  with ms c have "mset rows =
      {#t_readings example_db ! 1, t_readings example_db ! 2, t_readings example_db ! 4#}"
    by simp
  with h1 h2 h3 g so g0 show ?thesis by blast
qed

text \<open>
  Claim C5, as stated, fails for a window that reaches back before the year 1: the
  subtraction of the days raises \<^verbatim>\<open>OverflowError\<close> and no list is returned.
\<close>

theorem get_readings_window_overflow:
  "(0::int) < 1000000
   \<and> get_readings example_db example_now 1 (Some 1000000) = Inl OverflowError"
  by code_simp

subsection \<open>Goals\<close>

lemma add_goal_appends:
  "add_goal db patient_id goal_type target_value start_date end_date =
     Inr (db\<lparr>t_goals := t_goals db @
                [\<lparr>g_id = seq_goals db + 1, g_patient_id = patient_id, g_goal_type = goal_type,
                  g_target_value = target_value, g_current_value = 0,
                  g_start_date = start_date, g_end_date = end_date, g_achieved = 0\<rparr>],
             seq_goals := seq_goals db + 1\<rparr>)"
  by (simp add: add_goal_def foreign_keys_def Let_def)

lemma set_progress_simps:
  "g_patient_id (set_progress goal_id v a g) = g_patient_id g"
  "g_id (set_progress goal_id v a g) = g_id g"
  "g_target_value (set_progress goal_id v a g) = g_target_value g"
  "g_id g = goal_id \<Longrightarrow> g_current_value (set_progress goal_id v a g) = v"
  "g_id g = goal_id \<Longrightarrow> g_achieved (set_progress goal_id v a g) = a"
  "g_id g \<noteq> goal_id \<Longrightarrow> set_progress goal_id v a g = g"
  by (simp_all add: set_progress_def)

lemma filter_map_patient:
  "filter (\<lambda>g. g_patient_id g = p) (map (set_progress goal_id v a) gs) =
     map (set_progress goal_id v a) (filter (\<lambda>g. g_patient_id g = p) gs)"
  by (induction gs) (simp_all add: set_progress_simps(1))

lemma get_goals_update:
  "get_goals (update_goal_progress db goal_id current_value achieved) patient_id =
     map (set_progress goal_id current_value achieved) (get_goals db patient_id)"
proof -
  have "t_goals (update_goal_progress db goal_id current_value achieved) =
          map (set_progress goal_id current_value achieved) (t_goals db)"
    by (simp add: update_goal_progress_def set_progress_def)
  then show ?thesis
    by (simp add: get_goals_def filter_map_patient)
qed

text \<open>
  Claim C9. The goal that \<^const>\<open>add_goal\<close> adds has the current value 0 and the
  flag 0, and is the last of the goals of its patient. After
  \<^const>\<open>update_goal_progress\<close> every goal of the identifier that \<^const>\<open>get_goals\<close>
  returns has the current value and the flag that were passed, and every goal of that
  identifier that was there before is returned with just these two fields replaced:
  the target value is neither read nor written.
\<close>

theorem goal_progress_overwritten:
  "(\<exists>db' g. add_goal db patient_id goal_type target_value start_date end_date = Inr db'
        \<and> get_goals db' patient_id = get_goals db patient_id @ [g]
        \<and> g_current_value g = 0 \<and> g_achieved g = 0 \<and> g_target_value g = target_value)
   \<and> (\<forall>g \<in> set (get_goals (update_goal_progress db goal_id current_value achieved) patient_id).
        g_id g = goal_id \<longrightarrow> g_current_value g = current_value \<and> g_achieved g = achieved)
   \<and> (\<forall>g \<in> set (get_goals db patient_id).
        g_id g = goal_id \<longrightarrow>
          g\<lparr>g_current_value := current_value, g_achieved := achieved\<rparr>
            \<in> set (get_goals (update_goal_progress db goal_id current_value achieved) patient_id))"
proof (intro conjI ballI impI)
  show "\<exists>db' g. add_goal db patient_id goal_type target_value start_date end_date = Inr db'
        \<and> get_goals db' patient_id = get_goals db patient_id @ [g]
        \<and> g_current_value g = 0 \<and> g_achieved g = 0 \<and> g_target_value g = target_value"
    by (simp add: add_goal_appends get_goals_def)
next
  fix g
  assume "g \<in> set (get_goals (update_goal_progress db goal_id current_value achieved) patient_id)"
    and i: "g_id g = goal_id"
  then obtain g0 where g0: "g = set_progress goal_id current_value achieved g0"
    unfolding get_goals_update by auto
  with i have i0: "g_id g0 = goal_id" by (simp add: set_progress_simps(2))
  show "g_current_value g = current_value" using g0 i0 by (simp add: set_progress_simps(4))
  show "g_achieved g = achieved" using g0 i0 by (simp add: set_progress_simps(5))
next
  fix g
  assume m: "g \<in> set (get_goals db patient_id)" and i: "g_id g = goal_id"
  have "set_progress goal_id current_value achieved g
          \<in> set (get_goals (update_goal_progress db goal_id current_value achieved) patient_id)"
    unfolding get_goals_update using m by simp
  then show "g\<lparr>g_current_value := current_value, g_achieved := achieved\<rparr>
          \<in> set (get_goals (update_goal_progress db goal_id current_value achieved) patient_id)"
    using i by (simp add: set_progress_def)
qed

text \<open>
  A goal with the target 80: after \<^verbatim>\<open>update_goal_progress(1, 85, True)\<close> it has
  the current value 85 and the flag 1, and the target is still 80.
\<close>

theorem goal_progress_overwritten_witness:
  "get_goals goal_db 1 =
     [\<lparr>g_id = 1, g_patient_id = 1, g_goal_type = ''Time in Range'', g_target_value = 80,
       g_current_value = 0, g_start_date = ''2024-03-15'', g_end_date = ''2024-04-14'',
       g_achieved = 0\<rparr>]
   \<and> get_goals (update_goal_progress goal_db 1 85 1) 1 =
     [\<lparr>g_id = 1, g_patient_id = 1, g_goal_type = ''Time in Range'', g_target_value = 80,
       g_current_value = 85, g_start_date = ''2024-03-15'', g_end_date = ''2024-04-14'',
       g_achieved = 1\<rparr>]"
proof -
  define g where "g = \<lparr>g_id = 1, g_patient_id = 1, g_goal_type = ''Time in Range'',
       g_target_value = 80, g_current_value = 0, g_start_date = ''2024-03-15'',
       g_end_date = ''2024-04-14'', g_achieved = 0\<rparr>"
  define gs where "gs = get_goals (update_goal_progress goal_db 1 85 1) 1"
  have a: "get_goals goal_db 1 = [g]"
    by (simp add: get_goals_def goal_db_def g_def)
  have l: "length gs = 1"
    unfolding gs_def get_goals_update a by simp
  have m: "g \<in> set (get_goals goal_db 1)" and i: "g_id g = 1"
    using a by (simp_all add: g_def)
  have "\<forall>g \<in> set (get_goals goal_db 1). g_id g = 1 \<longrightarrow>
          g\<lparr>g_current_value := 85, g_achieved := 1\<rparr> \<in> set gs"
    unfolding gs_def
    by (rule goal_progress_overwritten
          [of goal_db 1 "''Time in Range''" 80 "''2024-03-15''" "''2024-04-14''" 1 85 1,
           THEN conjunct2, THEN conjunct2])
  with m i have "g\<lparr>g_current_value := 85, g_achieved := 1\<rparr> \<in> set gs"
    by blast
  moreover obtain x where "gs = [x]"
    using l by (cases gs) simp_all
  ultimately have "gs = [g\<lparr>g_current_value := 85, g_achieved := 1\<rparr>]"
    by simp
  then show ?thesis
    using a by (simp add: gs_def g_def)
qed

end
